theory Spec2Isabelle
  imports Main "HOL-Library.List_Lexorder" "HOL-Library.Product_Lexorder"
begin

section \<open>Python values used by crawl\_cli.py\<close>

text \<open>
  A Python \<^verbatim>\<open>str\<close> is a sequence of Unicode code points; it is modelled as a list of
  natural numbers, so that \<^verbatim>\<open>len\<close> counts code points and comparison is by code point.
  \<open>ustr\<close> turns a literal into such a string.
\<close>

type_synonym pystr = "nat list"

definition cp :: "char \<Rightarrow> nat" where
  "cp c = of_char c"

definition ustr :: "string \<Rightarrow> pystr" where
  "ustr s = map cp s"

text \<open>
  The tables and checks of the Python runtime that the script reaches through \<^verbatim>\<open>re\<close> and
  \<^verbatim>\<open>urllib.parse\<close> and that are not part of the repository are parameters:
  \<^item> \<open>isalnum\<close>: \<^verbatim>\<open>str.isalnum\<close> on one code point (consulted only above U+007F);
  \<^item> \<open>nfkc\<close>: \<^verbatim>\<open>unicodedata.normalize('NFKC', s)\<close>;
  \<^item> \<open>bracketed_host_ok\<close>: whether \<^verbatim>\<open>_check_bracketed_host\<close> accepts the host between
    square brackets (it raises ValueError otherwise).
\<close>

record pylib =
  isalnum :: "nat \<Rightarrow> bool"
  nfkc :: "pystr \<Rightarrow> pystr"
  bracketed_host_ok :: "pystr \<Rightarrow> bool"

text \<open>The exceptions that end a run of the script.\<close>

datatype exn = ValueError | AttributeError | SystemExit int

definition ascii_alpha :: "nat \<Rightarrow> bool" where
  "ascii_alpha c = ((65 \<le> c \<and> c \<le> 90) \<or> (97 \<le> c \<and> c \<le> 122))"

definition ascii_digit :: "nat \<Rightarrow> bool" where
  "ascii_digit c = (48 \<le> c \<and> c \<le> 57)"

text \<open>\<^verbatim>\<open>\w\<close> of a \<^verbatim>\<open>str\<close> pattern: alphanumeric or underscore.\<close>

definition is_word :: "pylib \<Rightarrow> nat \<Rightarrow> bool" where
  "is_word lib c =
     (if c < 128 then ascii_alpha c \<or> ascii_digit c \<or> c = cp CHR ''_'' else isalnum lib c)"

text \<open>\<^verbatim>\<open>str.isspace\<close> on one code point; \<^verbatim>\<open>str.strip()\<close> removes these.\<close>

definition isspace :: "nat \<Rightarrow> bool" where
  "isspace c =
     (c \<in> set [9, 10, 11, 12, 13, 28, 29, 30, 31, 32, 133, 160, 5760]
      \<or> (8192 \<le> c \<and> c \<le> 8202)
      \<or> c \<in> set [8232, 8233, 8239, 8287, 12288])"

definition strip_by :: "(nat \<Rightarrow> bool) \<Rightarrow> pystr \<Rightarrow> pystr" where
  "strip_by P s = rev (dropWhile P (rev (dropWhile P s)))"

text \<open>\<^verbatim>\<open>s.replace(a, b)\<close> for one-character \<open>a\<close> and \<open>b\<close>.\<close>

definition replace_char :: "nat \<Rightarrow> nat \<Rightarrow> pystr \<Rightarrow> pystr" where
  "replace_char a b s = map (\<lambda>c. if c = a then b else c) s"

text \<open>\<^verbatim>\<open>x or y\<close> on strings: the empty string is falsy.\<close>

definition or_str :: "pystr \<Rightarrow> pystr \<Rightarrow> pystr" where
  "or_str x y = (if x = [] then y else x)"

text \<open>\<^verbatim>\<open>sep.join(xs)\<close>.\<close>

fun join :: "pystr \<Rightarrow> pystr list \<Rightarrow> pystr" where
  "join sep [] = []"
| "join sep [x] = x"
| "join sep (x # y # ys) = x @ sep @ join sep (y # ys)"

text \<open>\<^verbatim>\<open>s.split(c)\<close> for a one-character separator.\<close>

fun split_sep :: "nat \<Rightarrow> pystr \<Rightarrow> pystr list" where
  "split_sep c [] = [[]]"
| "split_sep c (x # xs) =
     (if x = c then [] # split_sep c xs
      else (case split_sep c xs of [] \<Rightarrow> [[x]] | y # ys \<Rightarrow> (x # y) # ys))"

subsection \<open>Number formatting\<close>

fun digits :: "nat \<Rightarrow> pystr" where
  "digits n = (if n < 10 then [48 + n] else digits (n div 10) @ [48 + n mod 10])"

declare digits.simps [simp del]

text \<open>\<^verbatim>\<open>str(n)\<close> and \<^verbatim>\<open>f"{n}"\<close> for an int.\<close>

definition str_int :: "int \<Rightarrow> pystr" where
  "str_int n = (if n < 0 then cp CHR ''-'' # digits (nat (- n)) else digits (nat n))"

text \<open>\<^verbatim>\<open>f"{i:03d}"\<close> for \<open>i \<ge> 0\<close>: zero-padded to at least three digits.\<close>

definition fmt_03d :: "nat \<Rightarrow> pystr" where
  "fmt_03d i = replicate (3 - length (digits i)) (cp CHR ''0'') @ digits i"

text \<open>\<^verbatim>\<open>f"{n:,}"\<close> for \<open>n \<ge> 0\<close>: groups of three digits separated by commas.\<close>

fun fmt_comma :: "nat \<Rightarrow> pystr" where
  "fmt_comma n =
     (if n < 1000 then digits n
      else fmt_comma (n div 1000) @ [cp CHR '',''] @
           replicate (3 - length (digits (n mod 1000))) (cp CHR ''0'') @ digits (n mod 1000))"

declare fmt_comma.simps [simp del]

subsection \<open>urllib.parse.urlparse\<close>

text \<open>
  The result of \<^verbatim>\<open>urlparse\<close> (CPython 3.11, \<^verbatim>\<open>Lib/urllib/parse.py\<close>), with the six
  components of the named tuple. The script reads \<open>path\<close> and \<open>netloc\<close>.
\<close>

record parse_result =
  scheme :: pystr
  netloc :: pystr
  path :: pystr
  params :: pystr
  query :: pystr
  fragment :: pystr

definition scheme_char :: "nat \<Rightarrow> bool" where
  "scheme_char c = (ascii_alpha c \<or> ascii_digit c \<or> c \<in> set (ustr ''+-.''))"

definition lower_ascii :: "nat \<Rightarrow> nat" where
  "lower_ascii c = (if 65 \<le> c \<and> c \<le> 90 then c + 32 else c)"

definition uses_params :: "pystr list" where
  "uses_params = map ustr ['''', ''ftp'', ''hdl'', ''prospero'', ''http'', ''imap'',
     ''https'', ''shttp'', ''rtsp'', ''rtsps'', ''rtspu'', ''sip'', ''sips'', ''mms'',
     ''sftp'', ''tel'']"

text \<open>\<^verbatim>\<open>s.split(c, 1)\<close> when \<open>c\<close> occurs in \<open>s\<close>: the text before and after its first occurrence.\<close>

definition split_first :: "nat \<Rightarrow> pystr \<Rightarrow> pystr \<times> pystr" where
  "split_first c s = (takeWhile (\<lambda>x. x \<noteq> c) s, tl (dropWhile (\<lambda>x. x \<noteq> c) s))"

text \<open>\<^verbatim>\<open>_splitnetloc(url, 2)\<close>: the network location ends at the first of \<^verbatim>\<open>/?#\<close>.\<close>

definition splitnetloc :: "pystr \<Rightarrow> pystr \<times> pystr" where
  "splitnetloc url =
     (takeWhile (\<lambda>c. c \<notin> set (ustr ''/?#'')) (drop 2 url),
      dropWhile (\<lambda>c. c \<notin> set (ustr ''/?#'')) (drop 2 url))"

text \<open>The bracket checks of \<^verbatim>\<open>urlsplit\<close>; True when ValueError is raised.\<close>

definition brackets_raise :: "pylib \<Rightarrow> pystr \<Rightarrow> bool" where
  "brackets_raise lib nl =
     (let lb = cp CHR ''['' \<in> set nl; rb = cp CHR '']'' \<in> set nl
      in if lb \<and> rb
         then \<not> bracketed_host_ok lib
                (takeWhile (\<lambda>c. c \<noteq> cp CHR '']'') (snd (split_first (cp CHR ''['') nl)))
         else (lb \<or> rb))"

text \<open>\<^verbatim>\<open>_checknetloc\<close>; True when ValueError is raised.\<close>

definition checknetloc_raises :: "pylib \<Rightarrow> pystr \<Rightarrow> bool" where
  "checknetloc_raises lib nl =
     (if nl = [] \<or> list_all (\<lambda>c. c < 128) nl then False
      else (let n = filter (\<lambda>c. c \<notin> set (ustr ''@:#?'')) nl; netloc2 = nfkc lib n
            in if n = netloc2 then False
               else list_ex (\<lambda>c. c \<in> set netloc2) (ustr ''/?#@:'')))"

text \<open>
  \<^verbatim>\<open>urlsplit\<close>, step by step. First the leading C0 control characters and spaces are
  stripped and tab, carriage return and newline are removed everywhere.
\<close>

definition clean_url :: "pystr \<Rightarrow> pystr" where
  "clean_url url0 = filter (\<lambda>c. c \<notin> set [9, 13, 10]) (dropWhile (\<lambda>c. c \<le> 32) url0)"

text \<open>
  The scheme is the text before the first colon when that text is not empty, starts with an
  ASCII letter and has scheme characters only; it is lowered and cut off with the colon.
\<close>

definition split_scheme :: "pystr \<Rightarrow> pystr \<times> pystr" where
  "split_scheme url1 =
     (let pre = takeWhile (\<lambda>c. c \<noteq> cp CHR '':'') url1
      in if cp CHR '':'' \<in> set url1 \<and> pre \<noteq> [] \<and> ascii_alpha (hd pre) \<and> list_all scheme_char pre
         then (map lower_ascii pre, drop (length pre + 1) url1)
         else ([], url1))"

text \<open>\<^verbatim>\<open>if url[:2] == '//': netloc, url = _splitnetloc(url, 2)\<close>.\<close>

definition split_netloc :: "pystr \<Rightarrow> pystr \<times> pystr" where
  "split_netloc url2 = (if take 2 url2 = ustr ''//'' then splitnetloc url2 else ([], url2))"

text \<open>\<^verbatim>\<open>if c in url: url, x = url.split(c, 1)\<close>, with \<open>x\<close> empty otherwise.\<close>

definition split_off :: "nat \<Rightarrow> pystr \<Rightarrow> pystr \<times> pystr" where
  "split_off c url3 = (if c \<in> set url3 then split_first c url3 else (url3, []))"

text \<open>
  The bracket checks stand inside \<^verbatim>\<open>if url[:2] == '//'\<close> in the library; without a network
  location \<open>nl\<close> is empty and \<open>brackets_raise\<close> is False, so the test is made on \<open>nl\<close> alone.
\<close>

definition urlsplit :: "pylib \<Rightarrow> pystr \<Rightarrow> exn + parse_result" where
  "urlsplit lib url0 =
     (case split_scheme (clean_url url0) of (sch, url2) \<Rightarrow>
      case split_netloc url2 of (nl, url3) \<Rightarrow>
        if brackets_raise lib nl then Inl ValueError
        else
          (case split_off (cp CHR ''#'') url3 of (url4, frag) \<Rightarrow>
           case split_off (cp CHR ''?'') url4 of (url5, qry) \<Rightarrow>
             if checknetloc_raises lib nl then Inl ValueError
             else Inr \<lparr>scheme = sch, netloc = nl, path = url5, params = [],
                       query = qry, fragment = frag\<rparr>))"

text \<open>
  \<^verbatim>\<open>_splitparams\<close>: the parameters start at the first \<^verbatim>\<open>;\<close> of the last path segment.
\<close>

definition splitparams :: "pystr \<Rightarrow> pystr \<times> pystr" where
  "splitparams url =
     (if cp CHR ''/'' \<in> set url
      then (let seg = rev (takeWhile (\<lambda>c. c \<noteq> cp CHR ''/'') (rev url));
                before = take (length url - length seg) url
            in if cp CHR '';'' \<in> set seg
               then (before @ fst (split_first (cp CHR '';'') seg),
                     snd (split_first (cp CHR '';'') seg))
               else (url, []))
      else split_first (cp CHR '';'') url)"

definition urlparse :: "pylib \<Rightarrow> pystr \<Rightarrow> exn + parse_result" where
  "urlparse lib url =
     (case urlsplit lib url of
        Inl e \<Rightarrow> Inl e
      | Inr r \<Rightarrow>
          if scheme r \<in> set uses_params \<and> cp CHR '';'' \<in> set (path r)
          then Inr (r\<lparr>path := fst (splitparams (path r)), params := snd (splitparams (path r))\<rparr>)
          else Inr r)"

subsection \<open>pathlib (POSIX flavour)\<close>

text \<open>
  A \<^verbatim>\<open>PurePosixPath\<close>: its root (empty, one slash or two slashes) and its components.
  Empty components and \<^verbatim>\<open>.\<close> are dropped when a string is parsed; \<^verbatim>\<open>..\<close> is kept.
\<close>

record pure_path =
  root :: pystr
  parts :: "pystr list"

definition splitroot :: "pystr \<Rightarrow> pystr \<times> pystr" where
  "splitroot part =
     (if part \<noteq> [] \<and> hd part = cp CHR ''/''
      then (let stripped = dropWhile (\<lambda>c. c = cp CHR ''/'') part
            in (if length part - length stripped = 2 then ustr ''//'' else ustr ''/'', stripped))
      else ([], part))"

definition rel_parts :: "pystr \<Rightarrow> pystr list" where
  "rel_parts rel = filter (\<lambda>x. x \<noteq> [] \<and> x \<noteq> ustr ''.'') (split_sep (cp CHR ''/'') rel)"

text \<open>\<^verbatim>\<open>Path(s)\<close>.\<close>

definition Path :: "pystr \<Rightarrow> pure_path" where
  "Path s = \<lparr>root = fst (splitroot s), parts = rel_parts (snd (splitroot s))\<rparr>"

text \<open>\<^verbatim>\<open>p / s\<close>: a rooted right operand replaces the left one.\<close>

definition joinpath :: "pure_path \<Rightarrow> pystr \<Rightarrow> pure_path" where
  "joinpath p s =
     (if fst (splitroot s) \<noteq> [] then Path s
      else \<lparr>root = root p, parts = parts p @ rel_parts s\<rparr>)"

text \<open>\<^verbatim>\<open>str(p)\<close>.\<close>

definition str_path :: "pure_path \<Rightarrow> pystr" where
  "str_path p = or_str (root p @ join (ustr ''/'') (parts p)) (ustr ''.'')"

section \<open>The functions of crawl\_cli.py\<close>

subsection \<open>Crawl results\<close>

text \<open>
  The \<^verbatim>\<open>markdown\<close> attribute of a crawl result: \<^verbatim>\<open>None\<close>, a string, or an object whose
  attributes \<^verbatim>\<open>raw_markdown\<close> and \<^verbatim>\<open>fit_markdown\<close> are strings, or are missing or
  \<^verbatim>\<open>None\<close> (both read as \<open>None\<close> here: \<^verbatim>\<open>getattr\<close> with default \<^verbatim>\<open>""\<close> followed by
  \<^verbatim>\<open>or\<close> treats them alike).
\<close>

datatype markdown = MdNone | MdStr pystr | MdObj "pystr option" "pystr option"

text \<open>
  A result of the crawling library. \<open>title\<close> and \<open>depth\<close> are read with \<^verbatim>\<open>getattr\<close> and a
  default, so a missing attribute and \<^verbatim>\<open>None\<close> are both \<open>None\<close>.
\<close>

record crawl_result =
  success :: bool
  url :: pystr
  error_message :: "pystr option"
  markdown :: markdown
  title :: "pystr option"
  depth :: "int option"

text \<open>\<^verbatim>\<open>getattr(md, name, "") or ...\<close>: a missing, \<^verbatim>\<open>None\<close> or empty attribute is falsy.\<close>

definition truthy :: "pystr option \<Rightarrow> bool" where
  "truthy a = (case a of None \<Rightarrow> False | Some s \<Rightarrow> s \<noteq> [])"

fun get_markdown :: "crawl_result \<Rightarrow> pystr" where
  "get_markdown result =
     (case markdown result of
        MdNone \<Rightarrow> []
      | MdStr md \<Rightarrow> md
      | MdObj raw fit \<Rightarrow>
          if truthy raw then the raw
          else if truthy fit then the fit
          else [])"

definition sanitize_filename :: "pylib \<Rightarrow> pystr \<Rightarrow> exn + pystr" where
  "sanitize_filename lib u =
     (case urlparse lib u of
        Inl e \<Rightarrow> Inl e
      | Inr parsed \<Rightarrow>
          (let p1 = or_str (replace_char (cp CHR ''/'') (cp CHR ''_'')
                              (strip_by (\<lambda>c. c = cp CHR ''/'') (path parsed)))
                           (ustr ''index'');
               p2 = map (\<lambda>c. if is_word lib c \<or> c = cp CHR ''-'' \<or> c = cp CHR ''.''
                              then c else cp CHR ''_'') p1
           in Inr (take 100 p2)))"

definition get_output_dir :: "pylib \<Rightarrow> pystr \<Rightarrow> pystr \<Rightarrow> exn + pure_path" where
  "get_output_dir lib u base_dir =
     (case urlparse lib u of
        Inl e \<Rightarrow> Inl e
      | Inr parsed \<Rightarrow>
          (let domain = replace_char (cp CHR '':'') (cp CHR ''_'') (netloc parsed)
           in Inr (joinpath (Path base_dir) domain)))"

subsection \<open>The world the script acts on\<close>

text \<open>
  The effects of a run, in the order they happen: the directories made with
  \<^verbatim>\<open>mkdir(parents=True, exist_ok=True)\<close>, the files written with \<^verbatim>\<open>write_text\<close>, and the
  texts printed to standard output and standard error (one entry for each \<^verbatim>\<open>print\<close>).
  Paths are POSIX paths. The calls to the file system are taken to succeed, and the
  crawling library to return: an \<^verbatim>\<open>OSError\<close> and an exception raised inside the library
  are outside the model. The \<^verbatim>\<open>ValueError\<close> that \<^verbatim>\<open>urlparse\<close> raises for some URLs is in it.
\<close>

record world =
  dirs :: "pure_path list"
  files :: "(pure_path \<times> pystr) list"
  stdout :: "pystr list"
  stderr :: "pystr list"

definition mkdir :: "pure_path \<Rightarrow> world \<Rightarrow> world" where
  "mkdir d w = w\<lparr>dirs := dirs w @ [d]\<rparr>"

definition write_text :: "pure_path \<Rightarrow> pystr \<Rightarrow> world \<Rightarrow> world" where
  "write_text f text w = w\<lparr>files := files w @ [(f, text)]\<rparr>"

definition print :: "pystr \<Rightarrow> world \<Rightarrow> world" where
  "print s w = w\<lparr>stdout := stdout w @ [s]\<rparr>"

definition eprint :: "pystr \<Rightarrow> world \<Rightarrow> world" where
  "eprint s w = w\<lparr>stderr := stderr w @ [s]\<rparr>"

text \<open>
  The crawling library is a parameter: \<^verbatim>\<open>AsyncWebCrawler.arun\<close> takes the URL and the run
  configuration, of which the deep-crawl strategy (absent for a single page) is kept, and
  returns one result or a list of results.
\<close>

record deep_crawl =
  bfs_max_depth :: int
  bfs_include_external :: bool
  bfs_max_pages :: int

datatype arun_result = Single crawl_result | Multiple "crawl_result list"

type_synonym crawler = "pystr \<Rightarrow> deep_crawl option \<Rightarrow> arun_result"

text \<open>\<^verbatim>\<open>f"{x}"\<close> for an optional string: \<^verbatim>\<open>None\<close> prints as \<^verbatim>\<open>None\<close>.\<close>

definition str_opt :: "pystr option \<Rightarrow> pystr" where
  "str_opt a = (case a of None \<Rightarrow> ustr ''None'' | Some s \<Rightarrow> s)"

text \<open>\<^verbatim>\<open>getattr(r, "title", "") or u\<close>.\<close>

definition title_or :: "crawl_result \<Rightarrow> pystr \<Rightarrow> pystr" where
  "title_or r u = or_str (case title r of None \<Rightarrow> [] | Some t \<Rightarrow> t) u"

text \<open>\<^verbatim>\<open>getattr(r, "depth", 0) or 0\<close>.\<close>

definition depth_or_0 :: "crawl_result \<Rightarrow> int" where
  "depth_or_0 r = (case depth r of None \<Rightarrow> 0 | Some d \<Rightarrow> d)"

subsection \<open>crawl\_page\<close>

text \<open>The text of the file that \<^verbatim>\<open>crawl_page\<close> writes.\<close>

definition page_text :: "pystr \<Rightarrow> pystr \<Rightarrow> pystr \<Rightarrow> pystr" where
  "page_text ttl u content =
     ustr ''# '' @ ttl @ [10, 10] @ ustr ''URL: '' @ u @ [10, 10] @ content"

text \<open>
  The result is the exception that ended the run (\<open>None\<close> when the function returns) and the
  world it leaves.
\<close>

definition crawl_page :: "pylib \<Rightarrow> crawler \<Rightarrow> pystr \<Rightarrow> pystr \<Rightarrow> world \<Rightarrow> exn option \<times> world" where
  "crawl_page lib arun u output_dir w =
     (case get_output_dir lib u output_dir of
        Inl e \<Rightarrow> (Some e, w)
      | Inr out_dir \<Rightarrow>
          (let w1 = mkdir out_dir w;
               w2 = print (ustr ''Crawling '' @ u @ ustr '' ...'') w1
           in case arun u None of
                Multiple rs \<Rightarrow> (Some AttributeError, w2)
              | Single result \<Rightarrow>
                  if \<not> success result
                  then (Some (SystemExit 1),
                        eprint (ustr ''Error: '' @ str_opt (error_message result)) w2)
                  else
                    (let content = get_markdown result
                     in case sanitize_filename lib u of
                          Inl e \<Rightarrow> (Some e, w2)
                        | Inr name \<Rightarrow>
                            (let filename = name @ ustr ''.md'';
                                 filepath = joinpath out_dir filename;
                                 ttl = title_or result u;
                                 w3 = write_text filepath (page_text ttl u content) w2;
                                 w4 = print (ustr ''Saved: '' @ str_path filepath) w3;
                                 w5 = print (ustr ''Size: '' @ fmt_comma (length content)
                                               @ ustr '' chars'') w4
                             in (None, w5)))))"

subsection \<open>crawl\_site\<close>

text \<open>An entry of the list \<^verbatim>\<open>pages\<close> (a dict in the source).\<close>

record page =
  p_file :: pystr
  p_url :: pystr
  p_title :: pystr
  p_depth :: int
  p_size :: nat

text \<open>The local variables of \<^verbatim>\<open>crawl_site\<close> that change, and the world.\<close>

record site_state =
  pages :: "page list"
  errors :: nat
  wld :: world

text \<open>The text of a page file written by \<^verbatim>\<open>crawl_site\<close>.\<close>

definition site_page_text :: "pystr \<Rightarrow> pystr \<Rightarrow> int \<Rightarrow> pystr \<Rightarrow> pystr" where
  "site_page_text ttl u d content =
     ustr ''# '' @ ttl @ [10, 10] @ ustr ''URL: '' @ u @ [10] @ ustr ''Depth: '' @ str_int d
       @ [10, 10] @ content"

text \<open>The name of the page file of the result at position \<open>i\<close>.\<close>

definition page_filename :: "nat \<Rightarrow> pystr \<Rightarrow> pystr" where
  "page_filename i name = fmt_03d i @ ustr ''_'' @ name @ ustr ''.md''"

text \<open>One iteration of \<^verbatim>\<open>for i, r in enumerate(results)\<close>.\<close>

definition site_step :: "pylib \<Rightarrow> pure_path \<Rightarrow> nat \<times> crawl_result \<Rightarrow> site_state \<Rightarrow> exn option \<times> site_state" where
  "site_step lib pages_dir ir st =
     (let i = fst ir; r = snd ir
      in if \<not> success r then (None, st\<lparr>errors := errors st + 1\<rparr>)
         else
           (let content = get_markdown r
            in if strip_by isspace content = [] then (None, st)
               else
                 (let ttl = title_or r (url r);
                      d = depth_or_0 r
                  in case sanitize_filename lib (url r) of
                       Inl e \<Rightarrow> (Some e, st)
                     | Inr name \<Rightarrow>
                         (let filename = page_filename i name;
                              filepath = joinpath pages_dir filename;
                              w1 = write_text filepath (site_page_text ttl (url r) d content) (wld st);
                              entry = \<lparr>p_file = str_path filepath, p_url = url r, p_title = ttl,
                                       p_depth = d, p_size = length content\<rparr>
                          in (None, st\<lparr>pages := pages st @ [entry], wld := w1\<rparr>)))))"

fun site_loop :: "pylib \<Rightarrow> pure_path \<Rightarrow> (nat \<times> crawl_result) list \<Rightarrow> site_state \<Rightarrow> exn option \<times> site_state" where
  "site_loop lib pages_dir [] st = (None, st)"
| "site_loop lib pages_dir (ir # rest) st =
     (case site_step lib pages_dir ir st of
        (Some e, st') \<Rightarrow> (Some e, st')
      | (None, st') \<Rightarrow> site_loop lib pages_dir rest st')"

text \<open>The two index lines of one page entry.\<close>

definition index_entry :: "page \<Rightarrow> pystr list" where
  "index_entry p =
     [ustr ''- ['' @ p_title p @ ustr '']('' @ p_file p @ ustr '') '' @ [8212]
        @ ustr '' depth '' @ str_int (p_depth p) @ ustr '', '' @ fmt_comma (p_size p)
        @ ustr '' chars'',
      ustr ''  '' @ p_url p]"

definition index_lines :: "pystr \<Rightarrow> int \<Rightarrow> page list \<Rightarrow> nat \<Rightarrow> pystr list" where
  "index_lines u max_depth ps errs =
     [ustr ''# Crawl Index: '' @ u @ [10],
      ustr ''Pages: '' @ digits (length ps) @ ustr '' crawled, '' @ digits errs @ ustr '' errors'',
      ustr ''Depth: '' @ str_int max_depth @ [10],
      ustr ''## Pages'' @ [10]]
     @ concat (map index_entry ps)"

text \<open>
  The result is the exception that ended the run (\<open>None\<close> when the function returns), and
  the final \<^verbatim>\<open>pages\<close>, \<^verbatim>\<open>errors\<close> and world.
\<close>

definition crawl_site :: "pylib \<Rightarrow> crawler \<Rightarrow> pystr \<Rightarrow> int \<Rightarrow> int \<Rightarrow> pystr \<Rightarrow> world \<Rightarrow> exn option \<times> site_state" where
  "crawl_site lib arun u max_depth max_pages output_dir w =
     (case get_output_dir lib u output_dir of
        Inl e \<Rightarrow> (Some e, \<lparr>pages = [], errors = 0, wld = w\<rparr>)
      | Inr out_dir \<Rightarrow>
          (let pages_dir = joinpath out_dir (ustr ''pages'');
               w1 = mkdir pages_dir w;
               crawl_strategy = \<lparr>bfs_max_depth = max_depth, bfs_include_external = False,
                                 bfs_max_pages = max_pages\<rparr>;
               w2 = print (ustr ''Deep crawling '' @ u @ ustr '' (depth='' @ str_int max_depth
                            @ ustr '', max_pages='' @ str_int max_pages @ ustr '') ...'') w1;
               results = (case arun u (Some crawl_strategy) of
                            Multiple rs \<Rightarrow> rs
                          | Single r \<Rightarrow> [r])
           in case site_loop lib pages_dir (List.enumerate 0 results)
                     \<lparr>pages = [], errors = 0, wld = w2\<rparr> of
                (Some e, st) \<Rightarrow> (Some e, st)
              | (None, st) \<Rightarrow>
                  (let ps = sort_key (\<lambda>p. (p_depth p, p_url p)) (pages st);
                       index_path = joinpath out_dir (ustr ''index.md'');
                       lines = index_lines u max_depth ps (errors st);
                       w3 = write_text index_path (join [10] lines @ [10]) (wld st);
                       total_size = sum_list (map p_size ps);
                       w4 = print ([10] @ ustr ''Crawl complete!'') w3;
                       w5 = print (ustr ''Pages: '' @ digits (length ps) @ ustr '' crawled, ''
                                     @ digits (errors st) @ ustr '' errors'') w4;
                       w6 = print (ustr ''Index: '' @ str_path index_path) w5;
                       w7 = print (ustr ''Pages dir: '' @ str_path pages_dir) w6;
                       w8 = print (ustr ''Total content: '' @ fmt_comma total_size
                                     @ ustr '' chars'') w7
                   in (None, \<lparr>pages = ps, errors = errors st, wld = w8\<rparr>))))"

subsection \<open>main\<close>

text \<open>The namespace that \<^verbatim>\<open>argparse\<close> returns: the subcommand with its arguments.\<close>

datatype args =
  PageArgs (a_output_dir: pystr) (a_url: pystr)
| SiteArgs (a_output_dir: pystr) (a_url: pystr) (a_depth: int) (a_max_pages: int)

definition main :: "pylib \<Rightarrow> crawler \<Rightarrow> args \<Rightarrow> world \<Rightarrow> exn option \<times> world" where
  "main lib arun a w =
     (case a of
        PageArgs output_dir u \<Rightarrow> crawl_page lib arun u output_dir w
      | SiteArgs output_dir u d mp \<Rightarrow>
          (let depth' = max 1 (min 10 d);
               max_pages' = max 1 (min 500 mp)
           in case crawl_site lib arun u depth' max_pages' output_dir w of
                (e, st) \<Rightarrow> (e, wld st)))"

section \<open>Notions used to state the properties\<close>

text \<open>\<^verbatim>\<open>not content.strip()\<close>: the text has nothing but whitespace.\<close>

definition blank :: "pystr \<Rightarrow> bool" where
  "blank s = (strip_by isspace s = [])"

text \<open>A result that \<^verbatim>\<open>crawl_site\<close> persists: fetched, and with text that is not blank.\<close>

definition kept :: "crawl_result \<Rightarrow> bool" where
  "kept r = (success r \<and> \<not> blank (get_markdown r))"

definition failed :: "crawl_result \<Rightarrow> bool" where
  "failed r = (\<not> success r)"

text \<open>The list that the loop of \<^verbatim>\<open>crawl_site\<close> runs over.\<close>

definition results_of :: "arun_result \<Rightarrow> crawl_result list" where
  "results_of a = (case a of Multiple rs \<Rightarrow> rs | Single r \<Rightarrow> [r])"

text \<open>Whether \<^verbatim>\<open>urlparse\<close> returns for a URL.\<close>

definition accepted :: "pylib \<Rightarrow> pystr \<Rightarrow> bool" where
  "accepted lib u = (case urlparse lib u of Inl e \<Rightarrow> False | Inr r \<Rightarrow> True)"

text \<open>The sanitized name of an accepted URL.\<close>

definition the_name :: "pylib \<Rightarrow> pystr \<Rightarrow> pystr" where
  "the_name lib u = (case sanitize_filename lib u of Inl e \<Rightarrow> [] | Inr n \<Rightarrow> n)"

text \<open>The per-domain directory of an accepted URL.\<close>

definition the_dir :: "pylib \<Rightarrow> pystr \<Rightarrow> pystr \<Rightarrow> pure_path" where
  "the_dir lib u base_dir =
     (case get_output_dir lib u base_dir of Inl e \<Rightarrow> Path base_dir | Inr d \<Rightarrow> d)"

text \<open>The page file and the page entry that a kept result at position \<open>i\<close> gives.\<close>

definition page_path :: "pylib \<Rightarrow> pure_path \<Rightarrow> nat \<times> crawl_result \<Rightarrow> pure_path" where
  "page_path lib pages_dir ir =
     joinpath pages_dir (page_filename (fst ir) (the_name lib (url (snd ir))))"

definition page_file :: "pylib \<Rightarrow> pure_path \<Rightarrow> nat \<times> crawl_result \<Rightarrow> pure_path \<times> pystr" where
  "page_file lib pages_dir ir =
     (page_path lib pages_dir ir,
      site_page_text (title_or (snd ir) (url (snd ir))) (url (snd ir)) (depth_or_0 (snd ir))
        (get_markdown (snd ir)))"

definition page_entry :: "pylib \<Rightarrow> pure_path \<Rightarrow> nat \<times> crawl_result \<Rightarrow> page" where
  "page_entry lib pages_dir ir =
     \<lparr>p_file = str_path (page_path lib pages_dir ir), p_url = url (snd ir),
      p_title = title_or (snd ir) (url (snd ir)), p_depth = depth_or_0 (snd ir),
      p_size = length (get_markdown (snd ir))\<rparr>"

text \<open>
  The results of a site crawl, the kept ones with their positions, and the two paths
  below the per-domain directory.
\<close>

definition site_results :: "crawler \<Rightarrow> pystr \<Rightarrow> int \<Rightarrow> int \<Rightarrow> crawl_result list" where
  "site_results arun u md mp =
     results_of (arun u (Some \<lparr>bfs_max_depth = md, bfs_include_external = False,
                               bfs_max_pages = mp\<rparr>))"

definition kept_at :: "crawl_result list \<Rightarrow> (nat \<times> crawl_result) list" where
  "kept_at rs = filter (\<lambda>ir. kept (snd ir)) (List.enumerate 0 rs)"

definition pages_dir :: "pylib \<Rightarrow> pystr \<Rightarrow> pystr \<Rightarrow> pure_path" where
  "pages_dir lib u base_dir = joinpath (the_dir lib u base_dir) (ustr ''pages'')"

definition index_path :: "pylib \<Rightarrow> pystr \<Rightarrow> pystr \<Rightarrow> pure_path" where
  "index_path lib u base_dir = joinpath (the_dir lib u base_dir) (ustr ''index.md'')"

text \<open>The key that \<^verbatim>\<open>pages.sort\<close> compares: a tuple of the depth and the URL.\<close>

definition sort_key_of :: "page \<Rightarrow> int \<times> pystr" where
  "sort_key_of p = (p_depth p, p_url p)"

text \<open>A result whose markdown attribute is already the resolved string.\<close>

definition resolved :: "crawl_result \<Rightarrow> crawl_result" where
  "resolved r = r\<lparr>markdown := MdStr (get_markdown r)\<rparr>"

definition resolved_crawler :: "crawler \<Rightarrow> crawler" where
  "resolved_crawler arun u cfg =
     (case arun u cfg of
        Single r \<Rightarrow> Single (resolved r)
      | Multiple rs \<Rightarrow> Multiple (map resolved rs))"

text \<open>
  Containment of a path in a directory, read lexically: the components are normalised as
  \<^verbatim>\<open>os.path.normpath\<close> does (a \<^verbatim>\<open>..\<close> cancels the component before it), and the file is
  inside the directory when its normal form extends the directory's by components that
  do not step up.
\<close>

definition norm_step :: "bool \<Rightarrow> pystr list \<Rightarrow> pystr \<Rightarrow> pystr list" where
  "norm_step rooted st c =
     (if c = ustr ''..''
      then (if st = [] then (if rooted then [] else [c])
            else if last st = ustr ''..'' then st @ [c]
            else butlast st)
      else st @ [c])"

definition norm_parts :: "bool \<Rightarrow> pystr list \<Rightarrow> pystr list" where
  "norm_parts rooted ps = foldl (norm_step rooted) [] ps"

definition inside :: "pure_path \<Rightarrow> pure_path \<Rightarrow> bool" where
  "inside d f =
     (let nd = norm_parts (root d \<noteq> []) (parts d);
          nf = norm_parts (root f \<noteq> []) (parts f)
      in root f = root d \<and> take (length nd) nf = nd \<and> ustr ''..'' \<notin> set (drop (length nd) nf))"

text \<open>The number that a string of decimal digits denotes.\<close>

definition decimal_value :: "pystr \<Rightarrow> nat" where
  "decimal_value s = foldl (\<lambda>a c. 10 * a + (c - 48)) 0 s"

text \<open>The characters that \<^verbatim>\<open>sanitize_filename\<close> lets through: word characters, hyphen, dot.\<close>

definition allowed :: "pylib \<Rightarrow> nat \<Rightarrow> bool" where
  "allowed lib c = (is_word lib c \<or> c = cp CHR ''-'' \<or> c = cp CHR ''.'')"

subsection \<open>Concrete inputs\<close>

definition example_lib :: pylib where
  "example_lib = \<lparr>isalnum = (\<lambda>c. False), nfkc = (\<lambda>s. s), bracketed_host_ok = (\<lambda>h. False)\<rparr>"

definition empty_world :: world where
  "empty_world = \<lparr>dirs = [], files = [], stdout = [], stderr = []\<rparr>"

definition fetched :: "pystr \<Rightarrow> string \<Rightarrow> int \<Rightarrow> crawl_result" where
  "fetched u body d =
     \<lparr>success = True, url = u, error_message = None, markdown = MdStr (ustr body),
      title = None, depth = Some d\<rparr>"

definition unfetched :: "pystr \<Rightarrow> crawl_result" where
  "unfetched u =
     \<lparr>success = False, url = u, error_message = Some (ustr ''404''), markdown = MdNone,
      title = None, depth = None\<rparr>"

definition const_crawler :: "arun_result \<Rightarrow> crawler" where
  "const_crawler a u cfg = a"

text \<open>
  A small site: a page at depth 1, a page that could not be fetched, a page whose text is
  blank, and the start page.
\<close>

definition example_url :: pystr where
  "example_url = ustr ''http://a/''"

definition example_results :: "crawl_result list" where
  "example_results =
     [fetched (ustr ''http://a/z'') ''Zed'' 1,
      unfetched (ustr ''http://a/x''),
      fetched (ustr ''http://a/b'') ''  '' 1,
      fetched example_url ''Home page'' 0]"

definition example_crawler :: crawler where
  "example_crawler = const_crawler (Multiple example_results)"

section \<open>Auxiliary facts\<close>

subsection \<open>Strings and URLs\<close>

lemma cp_vals [simp]:
  "cp CHR ''/'' = 47" "cp CHR ''_'' = 95" "cp CHR ''-'' = 45" "cp CHR ''.'' = 46"
  "cp CHR '':'' = 58" "cp CHR ''?'' = 63" "cp CHR ''#'' = 35" "cp CHR '';'' = 59"
  "cp CHR ''['' = 91" "cp CHR '']'' = 93" "cp CHR ''0'' = 48" "cp CHR '','' = 44"
  by (simp_all add: cp_def)

lemma allowed_ascii: "allowed lib c \<Longrightarrow> 32 < c \<and> c \<noteq> 47 \<and> c \<noteq> 58 \<and> c \<noteq> 63 \<and> c \<noteq> 35 \<and> c \<noteq> 59"
  by (auto simp: allowed_def is_word_def ascii_alpha_def ascii_digit_def split: if_splits)

lemma allowed_underscore: "allowed lib 95"
  by (simp add: allowed_def is_word_def)

lemma sanitize_alphabet:
  assumes "sanitize_filename lib u = Inr f"
  shows "list_all (allowed lib) f" and "f \<noteq> []" and "length f \<le> 100"
proof -
  obtain r where r: "urlparse lib u = Inr r"
    using assms by (auto simp: sanitize_filename_def split: sum.splits)
  define p1 where "p1 = or_str (replace_char 47 95 (strip_by (\<lambda>c. c = 47) (path r))) (ustr ''index'')"
  define g where "g = (\<lambda>c. if is_word lib c \<or> c = 45 \<or> c = 46 then c else (95::nat))"
  have f: "f = take 100 (map g p1)"
    using assms unfolding sanitize_filename_def r sum.case Let_def cp_vals p1_def g_def by simp
  have ne: "p1 \<noteq> []" by (simp add: p1_def or_str_def ustr_def)
  have g: "\<And>c. allowed lib (g c)"
    using allowed_underscore by (simp add: g_def allowed_def)
  have "list_all (allowed lib) (map g p1)" by (simp add: list_all_iff g)
  then show "list_all (allowed lib) f"
    unfolding f list_all_iff using in_set_takeD by fastforce
  show "f \<noteq> []" using ne by (simp add: f)
  show "length f \<le> 100" by (simp add: f)
qed

lemma take2_slashes: "(47::nat) \<notin> set s \<Longrightarrow> take 2 s \<noteq> ustr ''//''"
  by (cases s) (auto simp: ustr_def)

lemma urlsplit_plain:
  assumes "\<forall>c\<in>set s. 32 < c \<and> c \<noteq> 47 \<and> c \<noteq> 58 \<and> c \<noteq> 63 \<and> c \<noteq> 35"
  shows "urlsplit lib s = Inr \<lparr>scheme = [], netloc = [], path = s, params = [], query = [], fragment = []\<rparr>"
proof -
  have d: "dropWhile (\<lambda>c. c \<le> 32) s = s"
    using assms by (cases s) auto
  have "\<And>c. c \<in> set s \<Longrightarrow> 32 < c" using assms by blast
  then have "\<And>c. c \<in> set s \<Longrightarrow> c \<noteq> 9 \<and> c \<noteq> 13 \<and> c \<noteq> 10" by fastforce
  then have fl: "filter (\<lambda>c. c \<notin> set [9, 13, 10]) s = s"
    by (simp add: filter_id_conv)
  have c: "(58::nat) \<notin> set s" "(35::nat) \<notin> set s" "(63::nat) \<notin> set s" "(47::nat) \<notin> set s"
    using assms by auto
  have 1: "clean_url s = s" unfolding clean_url_def d fl by (rule refl)
  have 2: "split_scheme s = ([], s)" by (simp add: split_scheme_def c)
  have 3: "split_netloc s = ([], s)" by (simp add: split_netloc_def take2_slashes[OF c(4)])
  have 4: "split_off 35 s = (s, [])" "split_off 63 s = (s, [])"
    by (simp_all add: split_off_def c)
  have 5: "brackets_raise lib [] = False" by (simp add: brackets_raise_def)
  have 6: "checknetloc_raises lib [] = False" by (simp add: checknetloc_raises_def)
  show ?thesis
    by (simp add: urlsplit_def 1 2 3 4 5 6)
qed

lemma urlparse_plain:
  assumes "\<forall>c\<in>set s. 32 < c \<and> c \<noteq> 47 \<and> c \<noteq> 58 \<and> c \<noteq> 63 \<and> c \<noteq> 35 \<and> c \<noteq> 59"
  shows "urlparse lib s = Inr \<lparr>scheme = [], netloc = [], path = s, params = [], query = [], fragment = []\<rparr>"
proof -
  have "\<forall>c\<in>set s. 32 < c \<and> c \<noteq> 47 \<and> c \<noteq> 58 \<and> c \<noteq> 63 \<and> c \<noteq> 35" using assms by blast
  note sp = urlsplit_plain[OF this]
  have "(59::nat) \<notin> set s" using assms by auto
  then show ?thesis by (simp add: urlparse_def sp)
qed

lemma strip_by_id:
  assumes ne: "s \<noteq> []" and np: "\<forall>c\<in>set s. \<not> P c"
  shows "strip_by P s = s"
proof -
  have "hd s \<in> set s" using ne by simp
  then have 1: "dropWhile P s = s" using np by (simp add: dropWhile_eq_self_iff)
  have "hd (rev s) \<in> set s" using ne by (simp add: hd_rev)
  then have 2: "dropWhile P (rev s) = rev s" using np by (simp add: dropWhile_eq_self_iff)
  show ?thesis by (simp add: strip_by_def 1 2)
qed

lemma sanitize_fixed_point:
  assumes al: "list_all (allowed lib) s" and ne: "s \<noteq> []" and len: "length s \<le> 100"
  shows "sanitize_filename lib s = Inr s"
proof -
  have a: "\<forall>c\<in>set s. 32 < c \<and> c \<noteq> 47 \<and> c \<noteq> 58 \<and> c \<noteq> 63 \<and> c \<noteq> 35 \<and> c \<noteq> 59"
    using al allowed_ascii by (auto simp: list_all_iff)
  have st: "strip_by (\<lambda>c. c = 47) s = s"
    using a by (intro strip_by_id[OF ne]) auto
  have rp: "replace_char 47 95 s = s"
    unfolding replace_char_def using a by (intro map_idI) auto
  have mp: "map (\<lambda>c. if is_word lib c \<or> c = 45 \<or> c = 46 then c else 95) s = s"
    using al by (intro map_idI) (auto simp: list_all_iff allowed_def)
  show ?thesis
    unfolding sanitize_filename_def urlparse_plain[OF a] sum.case Let_def cp_vals
    by (simp add: st rp or_str_def ne mp len)
qed

lemma sanitize_idem:
  "sanitize_filename lib u = Inr s \<Longrightarrow> sanitize_filename lib s = Inr s"
  using sanitize_alphabet[of lib u s] sanitize_fixed_point[of lib s] by blast

subsection \<open>Paths\<close>

lemma split_sep_no_sep: "c \<notin> set s \<Longrightarrow> split_sep c s = [s]"
  by (induction s) auto

lemma rel_parts_single:
  "47 \<notin> set s \<Longrightarrow> s \<noteq> [] \<Longrightarrow> s \<noteq> ustr ''.'' \<Longrightarrow> rel_parts s = [s]"
  by (simp add: rel_parts_def split_sep_no_sep)

lemma rel_parts_none:
  "s = [] \<or> s = ustr ''.'' \<Longrightarrow> rel_parts s = []"
  by (auto simp: rel_parts_def ustr_def)

lemma splitroot_no_sep: "47 \<notin> set s \<Longrightarrow> splitroot s = ([], s)"
  by (cases s) (auto simp: splitroot_def)

lemma joinpath_single:
  "47 \<notin> set s \<Longrightarrow> s \<noteq> [] \<Longrightarrow> s \<noteq> ustr ''.'' \<Longrightarrow>
   joinpath p s = \<lparr>root = root p, parts = parts p @ [s]\<rparr>"
  by (simp add: joinpath_def splitroot_no_sep rel_parts_single)

lemma joinpath_none:
  "s = [] \<or> s = ustr ''.'' \<Longrightarrow> joinpath p s = \<lparr>root = root p, parts = parts p\<rparr>"
  using rel_parts_none[of s] by (auto simp: joinpath_def splitroot_no_sep ustr_def)

lemma norm_parts_snoc:
  "c \<noteq> ustr ''..'' \<Longrightarrow> norm_parts rooted (xs @ [c]) = norm_parts rooted xs @ [c]"
  by (simp add: norm_parts_def norm_step_def)

lemma inside_refl: "inside d d"
  by (simp add: inside_def Let_def)

lemma inside_snoc:
  assumes "inside d f" and "c \<noteq> ustr ''..''"
  shows "inside d \<lparr>root = root f, parts = parts f @ [c]\<rparr>"
proof -
  define nd where "nd = norm_parts (root d \<noteq> []) (parts d)"
  define nf where "nf = norm_parts (root f \<noteq> []) (parts f)"
  have a: "root f = root d" "take (length nd) nf = nd" "ustr ''..'' \<notin> set (drop (length nd) nf)"
    using assms(1) unfolding inside_def Let_def nd_def nf_def by blast+
  have len: "length nd \<le> length nf"
    using arg_cong[OF a(2), of length] by simp
  have n: "norm_parts (root f \<noteq> []) (parts f @ [c]) = nf @ [c]"
    by (simp add: norm_parts_snoc[OF assms(2)] nf_def)
  have "take (length nd) (nf @ [c]) = nd" using a(2) len by simp
  moreover have "ustr ''..'' \<notin> set (drop (length nd) (nf @ [c]))"
    using a(3) len assms(2) by auto
  ultimately show ?thesis
    unfolding inside_def Let_def nd_def[symmetric] pure_path.simps n
    using a(1) by blast
qed

lemma inside_joinpath:
  assumes "inside d f" and "47 \<notin> set s" and "s \<noteq> ustr ''..''"
  shows "inside d (joinpath f s)"
proof (cases "s = [] \<or> s = ustr ''.''")
  case True
  show ?thesis using assms(1) by (simp add: joinpath_none[OF True] inside_def)
next
  case False
  then show ?thesis
    using inside_snoc[OF assms(1) assms(3)] assms(2) by (simp add: joinpath_single)
qed

lemma digits_chars: "\<forall>c\<in>set (digits n). 48 \<le> c \<and> c \<le> 57"
proof (induction n rule: digits.induct)
  case (1 n)
  show ?case
  proof (cases "n < 10")
    case True
    then show ?thesis by (subst digits.simps) simp
  next
    case False
    have "n mod 10 < 10" by simp
    then have "48 + n mod 10 \<le> 57" by linarith
    then show ?thesis using 1 False by (subst digits.simps) auto
  qed
qed

lemma fmt_03d_chars: "\<forall>c\<in>set (fmt_03d i). 48 \<le> c \<and> c \<le> 57"
  using digits_chars[of i] by (auto simp: fmt_03d_def)

lemma allowed_not_slash: "list_all (allowed lib) f \<Longrightarrow> 47 \<notin> set f"
  using allowed_ascii by (fastforce simp: list_all_iff)

lemma page_filename_safe:
  assumes "list_all (allowed lib) name"
  shows "47 \<notin> set (page_filename i name)" and "page_filename i name \<noteq> ustr ''..''"
    and "page_filename i name \<noteq> []" and "page_filename i name \<noteq> ustr ''.''"
proof -
  have d: "47 \<notin> set (fmt_03d i)" using fmt_03d_chars[of i] by fastforce
  show "47 \<notin> set (page_filename i name)"
    using d allowed_not_slash[OF assms] by (simp add: page_filename_def ustr_def cp_def)
  have "95 \<in> set (page_filename i name)" by (simp add: page_filename_def ustr_def)
  then show "page_filename i name \<noteq> ustr ''..''" "page_filename i name \<noteq> []"
    "page_filename i name \<noteq> ustr ''.''"
    by (auto simp: ustr_def)
qed

lemma md_name_safe:
  assumes "list_all (allowed lib) name"
  shows "47 \<notin> set (name @ ustr ''.md'')" and "name @ ustr ''.md'' \<noteq> ustr ''..''"
proof -
  show "47 \<notin> set (name @ ustr ''.md'')"
    using allowed_not_slash[OF assms] by (simp add: ustr_def cp_def)
  have "109 \<in> set (name @ ustr ''.md'')" by (simp add: ustr_def cp_def)
  then show "name @ ustr ''.md'' \<noteq> ustr ''..''" by (auto simp: ustr_def)
qed

subsection \<open>The loop of crawl\_site\<close>

lemma strip_by_Nil_iff: "strip_by P s = [] \<longleftrightarrow> list_all P s"
proof
  assume "strip_by P s = []"
  then have all: "\<forall>x\<in>set (dropWhile P s). P x"
    by (simp add: strip_by_def)
  have "dropWhile P s = []"
  proof (rule ccontr)
    assume ne: "dropWhile P s \<noteq> []"
    then have "\<not> P (hd (dropWhile P s))" by (rule hd_dropWhile)
    moreover have "hd (dropWhile P s) \<in> set (dropWhile P s)" using ne by simp
    ultimately show False using all by blast
  qed
  then show "list_all P s" by (simp add: list_all_iff)
next
  assume "list_all P s"
  then show "strip_by P s = []"
    by (auto simp: strip_by_def list_all_iff dest: set_dropWhileD)
qed

lemma blank_iff: "blank s = list_all isspace s"
  by (simp add: blank_def strip_by_Nil_iff)

lemma site_step_failed: "\<not> success r \<Longrightarrow> site_step lib pd (i, r) st = (None, st\<lparr>errors := errors st + 1\<rparr>)"
  by (simp add: site_step_def)

lemma site_step_blank: "success r \<Longrightarrow> blank (get_markdown r) \<Longrightarrow> site_step lib pd (i, r) st = (None, st)"
  by (simp add: site_step_def blank_def Let_def)

lemma accepted_sanitize: "accepted lib u \<Longrightarrow> sanitize_filename lib u = Inr (the_name lib u)"
  by (auto simp: accepted_def the_name_def sanitize_filename_def Let_def split: sum.splits)

lemma not_accepted_sanitize: "\<not> accepted lib u \<Longrightarrow> \<exists>e. sanitize_filename lib u = Inl e"
  by (auto simp: accepted_def sanitize_filename_def split: sum.splits)

lemma site_step_kept:
  "kept r \<Longrightarrow> accepted lib (url r) \<Longrightarrow>
   site_step lib pd (i, r) st =
     (None, st\<lparr>pages := pages st @ [page_entry lib pd (i, r)],
               wld := write_text (fst (page_file lib pd (i, r))) (snd (page_file lib pd (i, r))) (wld st)\<rparr>)"
  by (simp add: site_step_def kept_def blank_def Let_def accepted_sanitize page_entry_def page_file_def page_path_def)

lemma site_step_rejected:
  "kept r \<Longrightarrow> \<not> accepted lib (url r) \<Longrightarrow> \<exists>e. site_step lib pd (i, r) st = (Some e, st)"
  using not_accepted_sanitize[of lib "url r"]
  by (auto simp add: site_step_def kept_def blank_def Let_def)

lemma site_loop_returns:
  "\<forall>ir\<in>set irs. kept (snd ir) \<longrightarrow> accepted lib (url (snd ir)) \<Longrightarrow>
   site_loop lib pd irs st =
     (None, \<lparr>pages = pages st @ map (page_entry lib pd) (filter (\<lambda>ir. kept (snd ir)) irs),
            errors = errors st + length (filter (\<lambda>ir. failed (snd ir)) irs),
            wld = (wld st)\<lparr>files := files (wld st) @ map (page_file lib pd) (filter (\<lambda>ir. kept (snd ir)) irs)\<rparr>\<rparr>)"
proof (induction irs arbitrary: st)
  case Nil
  show ?case by simp
next
  case (Cons ir irs)
  obtain i r where ir: "ir = (i, r)" by (cases ir)
  have rest: "\<forall>ir\<in>set irs. kept (snd ir) \<longrightarrow> accepted lib (url (snd ir))"
    using Cons.prems by simp
  note IH = Cons.IH[OF rest]
  consider (f) "\<not> success r" | (b) "success r" "blank (get_markdown r)" | (k) "kept r"
    by (auto simp: kept_def)
  then show ?case
  proof cases
    case f
    then have nk: "\<not> kept r" "failed r" by (simp_all add: kept_def failed_def)
    show ?thesis
      by (simp add: ir site_step_failed[OF f] IH nk)
  next
    case b
    then have nk: "\<not> kept r" "\<not> failed r" by (simp_all add: kept_def failed_def)
    show ?thesis
      by (simp add: ir site_step_blank[OF b] IH nk)
  next
    case k
    then have acc: "accepted lib (url r)" using Cons.prems ir by simp
    have nf: "\<not> failed r" using k by (simp add: kept_def failed_def)
    show ?thesis
      by (simp add: ir site_step_kept[OF k acc] IH k nf write_text_def)
  qed
qed

lemma site_loop_aborts:
  "\<exists>ir\<in>set irs. kept (snd ir) \<and> \<not> accepted lib (url (snd ir)) \<Longrightarrow>
   \<exists>e. fst (site_loop lib pd irs st) = Some e"
proof (induction irs arbitrary: st)
  case Nil
  then show ?case by simp
next
  case (Cons ir irs)
  obtain i r where ir: "ir = (i, r)" by (cases ir)
  show ?case
  proof (cases "kept r \<and> \<not> accepted lib (url r)")
    case True
    then obtain e where "site_step lib pd (i, r) st = (Some e, st)"
      using site_step_rejected by blast
    then show ?thesis by (simp add: ir)
  next
    case False
    then have rest: "\<exists>ir\<in>set irs. kept (snd ir) \<and> \<not> accepted lib (url (snd ir))"
      using Cons.prems ir by auto
    consider (f) "\<not> success r" | (b) "success r" "blank (get_markdown r)" | (k) "kept r" "accepted lib (url r)"
      using False by (auto simp: kept_def)
    then show ?thesis
    proof cases
      case f
      show ?thesis using Cons.IH[OF rest] by (simp add: ir site_step_failed[OF f])
    next
      case b
      show ?thesis using Cons.IH[OF rest] by (simp add: ir site_step_blank[OF b])
    next
      case k
      show ?thesis using Cons.IH[OF rest] by (simp add: ir site_step_kept[OF k])
    qed
  qed
qed

lemma filter_snd_enumerate:
  "map snd (filter (\<lambda>ir. P (snd ir)) (List.enumerate n xs)) = filter P xs"
proof -
  have "filter P (map snd (List.enumerate n xs)) = map snd (filter (P \<circ> snd) (List.enumerate n xs))"
    by (rule filter_map)
  then show ?thesis by (simp add: comp_def)
qed

lemma length_filter_snd_enumerate:
  "length (filter (\<lambda>ir. P (snd ir)) (List.enumerate n xs)) = length (filter P xs)"
  using arg_cong[OF filter_snd_enumerate[of P n xs], of length] by simp

lemma accepted_output_dir: "accepted lib u \<Longrightarrow> get_output_dir lib u od = Inr (the_dir lib u od)"
  by (auto simp: accepted_def the_dir_def get_output_dir_def Let_def split: sum.splits)

lemma set_enumerate_snd: "ir \<in> set (List.enumerate n xs) \<Longrightarrow> snd ir \<in> set xs"
  by (cases ir) (auto simp: in_set_enumerate_eq)

lemma crawl_site_returns:
  fixes lib arun u md mp od w
  defines "rs \<equiv> results_of (arun u (Some \<lparr>bfs_max_depth = md, bfs_include_external = False, bfs_max_pages = mp\<rparr>))"
  defines "out_dir \<equiv> the_dir lib u od"
  defines "pd \<equiv> joinpath out_dir (ustr ''pages'')"
  defines "K \<equiv> filter (\<lambda>ir. kept (snd ir)) (List.enumerate 0 rs)"
  defines "ps \<equiv> sort_key sort_key_of (map (page_entry lib pd) K)"
  defines "E \<equiv> length (filter failed rs)"
  assumes acc: "accepted lib u"
      and all: "\<forall>r\<in>set rs. kept r \<longrightarrow> accepted lib (url r)"
  shows "crawl_site lib arun u md mp od w =
     (None, \<lparr>pages = ps, errors = E,
            wld = \<lparr>dirs = dirs w @ [pd],
                   files = files w @ map (page_file lib pd) K
                     @ [(joinpath out_dir (ustr ''index.md''), join [10] (index_lines u md ps E) @ [10])],
                   stdout = stdout w @
                     [ustr ''Deep crawling '' @ u @ ustr '' (depth='' @ str_int md
                        @ ustr '', max_pages='' @ str_int mp @ ustr '') ...'',
                      [10] @ ustr ''Crawl complete!'',
                      ustr ''Pages: '' @ digits (length ps) @ ustr '' crawled, '' @ digits E @ ustr '' errors'',
                      ustr ''Index: '' @ str_path (joinpath out_dir (ustr ''index.md'')),
                      ustr ''Pages dir: '' @ str_path pd,
                      ustr ''Total content: '' @ fmt_comma (sum_list (map p_size ps)) @ ustr '' chars''],
                   stderr = stderr w\<rparr>\<rparr>)"
proof -
  have res: "(case arun u (Some \<lparr>bfs_max_depth = md, bfs_include_external = False, bfs_max_pages = mp\<rparr>) of
               Multiple rs \<Rightarrow> rs | Single r \<Rightarrow> [r]) = rs"
    by (simp add: rs_def results_of_def)
  have all': "\<forall>ir\<in>set (List.enumerate 0 rs). kept (snd ir) \<longrightarrow> accepted lib (url (snd ir))"
    using all set_enumerate_snd by blast
  have E: "length (filter (\<lambda>ir. failed (snd ir)) (List.enumerate 0 rs)) = E"
    by (simp add: E_def length_filter_snd_enumerate)
  show ?thesis
    unfolding crawl_site_def accepted_output_dir[OF acc] sum.case Let_def res
      out_dir_def[symmetric] pd_def[symmetric] site_loop_returns[OF all'] E
    by (simp add: K_def ps_def sort_key_of_def[abs_def] print_def mkdir_def write_text_def)
qed

subsection \<open>Dependence of the crawl on the crawler\<close>

lemma crawl_site_cong:
  assumes "arun u (Some \<lparr>bfs_max_depth = md, bfs_include_external = False, bfs_max_pages = mp\<rparr>)
         = arun' u (Some \<lparr>bfs_max_depth = md, bfs_include_external = False, bfs_max_pages = mp\<rparr>)"
  shows "crawl_site lib arun u md mp od w = crawl_site lib arun' u md mp od w"
  unfolding crawl_site_def Let_def assms by (rule refl)

lemma get_markdown_resolved: "get_markdown (resolved r) = get_markdown r"
  by (simp add: resolved_def)

lemma resolved_fields:
  "success (resolved r) = success r" "url (resolved r) = url r"
  "title_or (resolved r) v = title_or r v" "depth_or_0 (resolved r) = depth_or_0 r"
  "error_message (resolved r) = error_message r"
  by (simp_all add: resolved_def title_or_def depth_or_0_def)

lemma site_step_resolved: "site_step lib pd (i, resolved r) st = site_step lib pd (i, r) st"
  unfolding site_step_def Let_def fst_conv snd_conv resolved_fields get_markdown_resolved
  by (rule refl)

lemma site_loop_resolved:
  "site_loop lib pd (map (\<lambda>ir. (fst ir, resolved (snd ir))) irs) st = site_loop lib pd irs st"
proof (induction irs arbitrary: st)
  case Nil
  show ?case by simp
next
  case (Cons ir irs)
  obtain i r where ir: "ir = (i, r)" by (cases ir)
  show ?case by (simp add: ir site_step_resolved Cons.IH split: prod.splits option.splits)
qed

lemma enumerate_map_snd:
  "List.enumerate n (map f xs) = map (\<lambda>ir. (fst ir, f (snd ir))) (List.enumerate n xs)"
  by (induction xs arbitrary: n) simp_all

lemma crawl_site_resolved:
  "crawl_site lib (resolved_crawler arun) u md mp od w = crawl_site lib arun u md mp od w"
proof -
  have rs: "(case resolved_crawler arun u c of Multiple rs \<Rightarrow> rs | Single r \<Rightarrow> [r])
      = map resolved (case arun u c of Multiple rs \<Rightarrow> rs | Single r \<Rightarrow> [r])" for c
    by (simp add: resolved_crawler_def split: arun_result.splits)
  show ?thesis
    unfolding crawl_site_def Let_def rs enumerate_map_snd site_loop_resolved by (rule refl)
qed

lemma crawl_page_resolved:
  "crawl_page lib (resolved_crawler arun) u od w = crawl_page lib arun u od w"
  unfolding crawl_page_def Let_def resolved_crawler_def
  by (simp add: get_markdown_resolved resolved_fields del: get_markdown.simps
      split: sum.splits arun_result.splits)

subsection \<open>How a run can end, and where it writes\<close>

lemma urlsplit_error: "urlsplit lib u = Inl e \<Longrightarrow> e = ValueError"
  by (auto simp: urlsplit_def split: prod.splits if_splits)

lemma urlparse_error: "urlparse lib u = Inl e \<Longrightarrow> e = ValueError"
  by (auto simp: urlparse_def split: sum.splits if_splits dest: urlsplit_error)

lemma sanitize_error: "sanitize_filename lib u = Inl e \<Longrightarrow> e = ValueError"
  by (auto simp: sanitize_filename_def Let_def split: sum.splits dest: urlparse_error)

lemma output_dir_error: "get_output_dir lib u od = Inl e \<Longrightarrow> e = ValueError"
  by (auto simp: get_output_dir_def Let_def split: sum.splits dest: urlparse_error)

lemma site_step_error: "site_step lib pd ir st = (Some e, st') \<Longrightarrow> e = ValueError"
  by (auto simp: site_step_def Let_def split: if_splits sum.splits dest: sanitize_error)

lemma site_loop_error: "site_loop lib pd irs st = (Some e, st') \<Longrightarrow> e = ValueError"
proof (induction irs arbitrary: st)
  case Nil
  then show ?case by simp
next
  case (Cons ir irs)
  show ?case
  proof (cases "site_step lib pd ir st")
    case (Pair x st1)
    show ?thesis
    proof (cases x)
      case None
      then show ?thesis using Cons Pair by simp
    next
      case (Some e1)
      then show ?thesis using Cons.prems Pair site_step_error[of lib pd ir st e1 st1] by simp
    qed
  qed
qed

lemma crawl_site_error: "crawl_site lib arun u md mp od w = (Some e, st') \<Longrightarrow> e = ValueError"
  unfolding crawl_site_def Let_def
  by (auto split: sum.splits prod.splits option.splits dest: output_dir_error site_loop_error)

text \<open>Files written by one step and by the loop.\<close>

lemma site_step_files:
  "site_step lib pd ir st = (e, st') \<Longrightarrow>
   files (wld st') = files (wld st)
   \<or> (\<exists>name text. sanitize_filename lib (url (snd ir)) = Inr name
        \<and> files (wld st') = files (wld st) @ [(joinpath pd (page_filename (fst ir) name), text)])"
  by (auto simp: site_step_def Let_def write_text_def split: if_splits sum.splits)

lemma site_loop_files:
  assumes "site_loop lib pd irs st = (e, st')"
      and "\<forall>ft\<in>set (files (wld st)). Q (fst ft)"
      and "\<And>i name v. sanitize_filename lib v = Inr name \<Longrightarrow> Q (joinpath pd (page_filename i name))"
  shows "\<forall>ft\<in>set (files (wld st')). Q (fst ft)"
  using assms(1,2)
proof (induction irs arbitrary: st)
  case Nil
  then show ?case by simp
next
  case (Cons ir irs)
  obtain x st1 where s: "site_step lib pd ir st = (x, st1)" by (cases "site_step lib pd ir st")
  have q1: "\<forall>ft\<in>set (files (wld st1)). Q (fst ft)"
    using site_step_files[OF s] Cons.prems(2) assms(3) by auto
  show ?case
  proof (cases x)
    case None
    then have "site_loop lib pd irs st1 = (e, st')" using Cons.prems(1) s by simp
    then show ?thesis using Cons.IH q1 by blast
  next
    case (Some e1)
    then have "st' = st1" using Cons.prems(1) s by simp
    then show ?thesis using q1 by simp
  qed
qed

lemma urlsplit_netloc_no_slash: "urlsplit lib u = Inr r \<Longrightarrow> 47 \<notin> set (netloc r)"
proof -
  assume a: "urlsplit lib u = Inr r"
  have "47 \<notin> set (fst (split_netloc v))" for v
    by (auto simp: split_netloc_def splitnetloc_def ustr_def dest: set_takeWhileD)
  then show ?thesis
    using a by (auto simp: urlsplit_def split: prod.splits if_splits) (metis fst_conv)
qed

lemma urlparse_netloc_no_slash: "urlparse lib u = Inr r \<Longrightarrow> 47 \<notin> set (netloc r)"
  by (auto simp: urlparse_def split: sum.splits if_splits dest: urlsplit_netloc_no_slash)

lemma domain_not_dotdot:
  "nl \<noteq> ustr ''..'' \<Longrightarrow> replace_char (cp CHR '':'') (cp CHR ''_'') nl \<noteq> ustr ''..''"
proof
  assume ne: "nl \<noteq> ustr ''..''" and eq: "replace_char (cp CHR '':'') (cp CHR ''_'') nl = ustr ''..''"
  from eq have "map (\<lambda>c. if c = 58 then 95 else c) nl = [46, 46]"
    by (simp add: replace_char_def ustr_def)
  then have "nl = [46, 46]"
    by (auto simp: map_eq_Cons_conv split: if_splits)
  then show False using ne by (simp add: ustr_def)
qed

lemma the_dir_inside:
  assumes "urlparse lib u = Inr pr" and "netloc pr \<noteq> ustr ''..''"
  shows "get_output_dir lib u od = Inr (the_dir lib u od)"
    and "inside (Path od) (the_dir lib u od)"
proof -
  let ?dom = "replace_char (cp CHR '':'') (cp CHR ''_'') (netloc pr)"
  have d: "the_dir lib u od = joinpath (Path od) ?dom"
    by (simp add: the_dir_def get_output_dir_def assms(1) Let_def)
  show "get_output_dir lib u od = Inr (the_dir lib u od)"
    by (simp add: the_dir_def get_output_dir_def assms(1) Let_def)
  have "47 \<notin> set (netloc pr)" using urlparse_netloc_no_slash[OF assms(1)] .
  then have ns: "47 \<notin> set ?dom" by (auto simp: replace_char_def)
  show "inside (Path od) (the_dir lib u od)"
    unfolding d by (rule inside_joinpath[OF inside_refl ns domain_not_dotdot[OF assms(2)]])
qed

lemma literal_safe:
  "47 \<notin> set (ustr ''pages'')" "ustr ''pages'' \<noteq> ustr ''..''"
  "47 \<notin> set (ustr ''index.md'')" "ustr ''index.md'' \<noteq> ustr ''..''"
  by (simp_all add: ustr_def cp_def)

lemma crawl_site_files_inside:
  assumes pr: "urlparse lib u = Inr pr" and nl: "netloc pr \<noteq> ustr ''..''"
  shows "\<forall>ft\<in>set (files (wld (snd (crawl_site lib arun u md mp od w)))).
           fst ft \<in> fst ` set (files w) \<or> inside (Path od) (fst ft)"
proof -
  define Q where "Q = (\<lambda>f. f \<in> fst ` set (files w) \<or> inside (Path od) f)"
  define out_dir where "out_dir = the_dir lib u od"
  define pd where "pd = joinpath out_dir (ustr ''pages'')"
  define rs where "rs = (case arun u (Some \<lparr>bfs_max_depth = md, bfs_include_external = False,
      bfs_max_pages = mp\<rparr>) of Multiple rs \<Rightarrow> rs | Single r \<Rightarrow> [r])"
  define st0 where "st0 = \<lparr>pages = [], errors = 0,
      wld = print (ustr ''Deep crawling '' @ u @ ustr '' (depth='' @ str_int md
                            @ ustr '', max_pages='' @ str_int mp @ ustr '') ...'') (mkdir pd w)\<rparr>"
  have od: "get_output_dir lib u od = Inr out_dir" and ins: "inside (Path od) out_dir"
    using the_dir_inside[OF pr nl] by (simp_all add: out_dir_def)
  have pdi: "inside (Path od) pd"
    unfolding pd_def by (rule inside_joinpath[OF ins literal_safe(1,2)])
  have idx: "inside (Path od) (joinpath out_dir (ustr ''index.md''))"
    by (rule inside_joinpath[OF ins literal_safe(3,4)])
  have q0: "\<forall>ft\<in>set (files (wld st0)). Q (fst ft)"
    by (auto simp: st0_def print_def mkdir_def Q_def)
  have qstep: "\<And>i name v. sanitize_filename lib v = Inr name \<Longrightarrow> Q (joinpath pd (page_filename i name))"
  proof -
    fix i name v assume "sanitize_filename lib v = Inr name"
    then have al: "list_all (allowed lib) name" by (rule sanitize_alphabet(1))
    show "Q (joinpath pd (page_filename i name))"
      unfolding Q_def using inside_joinpath[OF pdi page_filename_safe(1,2)[OF al]] by blast
  qed
  obtain e st where loop: "site_loop lib pd (List.enumerate 0 rs) st0 = (e, st)"
    by (cases "site_loop lib pd (List.enumerate 0 rs) st0")
  have q: "\<forall>ft\<in>set (files (wld st)). Q (fst ft)"
    by (rule site_loop_files[OF loop q0 qstep])
  have cs: "crawl_site lib arun u md mp od w =
     (case (e, st) of
        (Some e, st) \<Rightarrow> (Some e, st)
      | (None, st) \<Rightarrow>
                  (let ps = sort_key (\<lambda>p. (p_depth p, p_url p)) (pages st);
                       index_path = joinpath out_dir (ustr ''index.md'');
                       lines = index_lines u md ps (errors st);
                       w3 = write_text index_path (join [10] lines @ [10]) (wld st);
                       total_size = sum_list (map p_size ps);
                       w4 = print ([10] @ ustr ''Crawl complete!'') w3;
                       w5 = print (ustr ''Pages: '' @ digits (length ps) @ ustr '' crawled, ''
                                     @ digits (errors st) @ ustr '' errors'') w4;
                       w6 = print (ustr ''Index: '' @ str_path index_path) w5;
                       w7 = print (ustr ''Pages dir: '' @ str_path pd) w6;
                       w8 = print (ustr ''Total content: '' @ fmt_comma total_size
                                     @ ustr '' chars'') w7
                   in (None, \<lparr>pages = ps, errors = errors st, wld = w8\<rparr>)))"
    unfolding crawl_site_def od sum.case Let_def pd_def[symmetric] rs_def[symmetric]
      st0_def[symmetric] loop
    by (rule refl)
  show ?thesis
  proof (cases e)
    case None
    then show ?thesis
      using q idx unfolding cs
      by (auto simp: Let_def print_def write_text_def Q_def)
  next
    case (Some e1)
    then show ?thesis using q unfolding cs by (simp add: Q_def)
  qed
qed

lemma crawl_page_files_inside:
  assumes pr: "urlparse lib u = Inr pr" and nl: "netloc pr \<noteq> ustr ''..''"
  shows "\<forall>ft\<in>set (files (snd (crawl_page lib arun u od w))).
           fst ft \<in> fst ` set (files w) \<or> inside (Path od) (fst ft)"
proof -
  define out_dir where "out_dir = the_dir lib u od"
  have od: "get_output_dir lib u od = Inr out_dir" and ins: "inside (Path od) out_dir"
    using the_dir_inside[OF pr nl] by (simp_all add: out_dir_def)
  have f: "\<And>name. sanitize_filename lib u = Inr name \<Longrightarrow>
     inside (Path od) (joinpath out_dir (name @ ustr ''.md''))"
    using inside_joinpath[OF ins md_name_safe] sanitize_alphabet(1) by blast
  show ?thesis
    unfolding crawl_page_def od sum.case Let_def
    using f by (auto simp: print_def eprint_def mkdir_def write_text_def
        split: arun_result.splits sum.splits)
qed

subsection \<open>The result of a site crawl that returns\<close>

lemma crawl_site_result:
  assumes acc: "accepted lib u"
      and all: "\<forall>r\<in>set (site_results arun u md mp). kept r \<longrightarrow> accepted lib (url r)"
  shows "crawl_site lib arun u md mp od w =
     (None,
      \<lparr>pages = sort_key sort_key_of
                 (map (page_entry lib (pages_dir lib u od)) (kept_at (site_results arun u md mp))),
       errors = length (filter failed (site_results arun u md mp)),
       wld = \<lparr>dirs = dirs w @ [pages_dir lib u od],
              files = files w
                @ map (page_file lib (pages_dir lib u od)) (kept_at (site_results arun u md mp))
                @ [(index_path lib u od,
                    join [10] (index_lines u md
                      (sort_key sort_key_of
                         (map (page_entry lib (pages_dir lib u od))
                            (kept_at (site_results arun u md mp))))
                      (length (filter failed (site_results arun u md mp)))) @ [10])],
              stdout = stdout w @
                [ustr ''Deep crawling '' @ u @ ustr '' (depth='' @ str_int md
                   @ ustr '', max_pages='' @ str_int mp @ ustr '') ...'',
                 [10] @ ustr ''Crawl complete!'',
                 ustr ''Pages: ''
                   @ digits (length (kept_at (site_results arun u md mp)))
                   @ ustr '' crawled, ''
                   @ digits (length (filter failed (site_results arun u md mp)))
                   @ ustr '' errors'',
                 ustr ''Index: '' @ str_path (index_path lib u od),
                 ustr ''Pages dir: '' @ str_path (pages_dir lib u od),
                 ustr ''Total content: ''
                   @ fmt_comma (sum_list (map p_size
                       (sort_key sort_key_of
                          (map (page_entry lib (pages_dir lib u od))
                             (kept_at (site_results arun u md mp))))))
                   @ ustr '' chars''],
              stderr = stderr w\<rparr>\<rparr>)"
  using crawl_site_returns[where lib=lib and arun=arun and u=u and md=md and mp=mp
      and od=od and w=w, OF acc all[unfolded site_results_def]]
  by (simp add: site_results_def kept_at_def pages_dir_def index_path_def)

lemma sum_list_insort_key: "sum_list (map g (insort_key f x ys)) = g x + sum_list (map (g::'a \<Rightarrow> nat) ys)"
  by (induction ys) simp_all

lemma sum_list_sort_key: "sum_list (map g (sort_key f xs)) = sum_list (map (g::'a \<Rightarrow> nat) xs)"
  by (induction xs) (simp_all add: sum_list_insort_key)

lemma kept_not_blank: "kept r \<Longrightarrow> get_markdown r \<noteq> [] \<and> \<not> list_all isspace (get_markdown r)"
  using blank_iff[of "get_markdown r"] by (auto simp: kept_def)

lemma kept_at_kept: "ir \<in> set (kept_at rs) \<Longrightarrow> kept (snd ir)"
  by (simp add: kept_at_def)

lemma kept_at_position: "(i, r) \<in> set (kept_at rs) \<Longrightarrow> i < length rs \<and> rs ! i = r"
  by (auto simp: kept_at_def in_set_enumerate_eq)

lemma length_kept_at: "length (kept_at rs) = length (filter kept rs)"
  by (simp add: kept_at_def length_filter_snd_enumerate)

subsection \<open>The example site\<close>

lemmas url_defs = urlparse_def urlsplit_def clean_url_def split_scheme_def
  split_netloc_def splitnetloc_def split_off_def split_first_def brackets_raise_def
  checknetloc_raises_def ustr_def cp_def ascii_alpha_def ascii_digit_def scheme_char_def
  lower_ascii_def uses_params_def splitparams_def Let_def

lemma example_url_parsed:
  "urlparse example_lib example_url =
     Inr \<lparr>scheme = ustr ''http'', netloc = ustr ''a'', path = ustr ''/'', params = [],
          query = [], fragment = []\<rparr>"
  by (simp add: url_defs example_lib_def example_url_def)

lemma example_page_parsed:
  "urlparse example_lib (ustr ''http://a/z'') =
     Inr \<lparr>scheme = ustr ''http'', netloc = ustr ''a'', path = ustr ''/z'', params = [],
          query = [], fragment = []\<rparr>"
  by (simp add: url_defs example_lib_def)

lemma example_accepted: "accepted example_lib example_url"
  by (simp add: accepted_def example_url_parsed)

lemma example_site_results: "site_results example_crawler u md mp = example_results"
  by (simp add: site_results_def example_crawler_def const_crawler_def results_of_def)

lemma example_kept:
  "kept (fetched v ''Zed'' d)" "kept (fetched v ''Home page'' d)"
  "\<not> kept (fetched v ''  '' d)" "\<not> kept (unfetched v)"
  by (simp_all add: kept_def blank_iff fetched_def unfetched_def ustr_def cp_def isspace_def)

lemma example_fields:
  "url (fetched v b d) = v" "success (fetched v b d)" "\<not> success (unfetched v)"
  "get_markdown (fetched v b d) = ustr b" "title_or (fetched v b d) v' = v'"
  "depth_or_0 (fetched v b d) = d"
  by (simp_all add: fetched_def unfetched_def title_or_def depth_or_0_def or_str_def)

lemma example_results_accepted:
  "\<forall>r\<in>set (site_results example_crawler example_url md mp).
     kept r \<longrightarrow> accepted example_lib (url r)"
  unfolding example_site_results example_results_def
  using example_accepted
  by (simp add: example_kept accepted_def example_page_parsed example_fields)

lemma example_failed: "filter failed example_results = [unfetched (ustr ''http://a/x'')]"
  by (simp add: example_results_def failed_def example_fields)

lemma example_kept_at:
  "kept_at example_results =
     [(0, fetched (ustr ''http://a/z'') ''Zed'' 1), (3, fetched example_url ''Home page'' 0)]"
  by (simp add: kept_at_def example_results_def example_kept enumerate_eq_zip upt_rec)

subsection \<open>Exits\<close>

lemma crawl_site_never_exits: "fst (crawl_site lib arun u md mp od w) \<noteq> Some (SystemExit n)"
proof
  assume a: "fst (crawl_site lib arun u md mp od w) = Some (SystemExit n)"
  obtain st where "crawl_site lib arun u md mp od w = (Some (SystemExit n), st)"
    using a by (cases "crawl_site lib arun u md mp od w") simp
  then show False using crawl_site_error by blast
qed

lemma crawl_page_fetch_failed:
  assumes "accepted lib u" and "arun u None = Single r" and "\<not> success r"
  shows "crawl_page lib arun u od w =
     (Some (SystemExit 1),
      w\<lparr>dirs := dirs w @ [the_dir lib u od],
        stdout := stdout w @ [ustr ''Crawling '' @ u @ ustr '' ...''],
        stderr := stderr w @ [ustr ''Error: '' @ str_opt (error_message r)]\<rparr>)"
  unfolding crawl_page_def accepted_output_dir[OF assms(1)] sum.case Let_def assms(2)
  using assms(3) by (simp add: mkdir_def print_def eprint_def)

subsection \<open>Page entries\<close>

lemma page_entry_fields:
  "p_url (page_entry lib pd ir) = url (snd ir)"
  "p_depth (page_entry lib pd ir) = depth_or_0 (snd ir)"
  "p_title (page_entry lib pd ir) = title_or (snd ir) (url (snd ir))"
  "p_size (page_entry lib pd ir) = length (get_markdown (snd ir))"
  "p_file (page_entry lib pd ir) = str_path (fst (page_file lib pd ir))"
  by (simp_all add: page_entry_def page_file_def)

lemma sort_key_of_le:
  "(sort_key_of p \<le> sort_key_of q)
     = (p_depth p < p_depth q \<or> p_depth p = p_depth q \<and> p_url p \<le> p_url q)"
  by (auto simp: sort_key_of_def less_eq_prod_def)

lemma example_sorted_urls:
  "map p_url (sort_key sort_key_of (map (page_entry lib pd) (kept_at example_results)))
     = [example_url, ustr ''http://a/z'']"
  by (simp add: example_kept_at sort_key_of_def page_entry_fields example_fields less_eq_prod_def)

subsection \<open>The layout of the output\<close>

lemma joinpath_page_file:
  assumes "accepted lib v"
  shows "joinpath pd (page_filename i (the_name lib v))
     = \<lparr>root = root pd, parts = parts pd @ [page_filename i (the_name lib v)]\<rparr>"
proof -
  have "list_all (allowed lib) (the_name lib v)"
    using sanitize_alphabet(1)[OF accepted_sanitize[OF assms]] .
  note s = page_filename_safe[OF this, of i]
  show ?thesis by (rule joinpath_single[OF s(1) s(3) s(4)])
qed

lemma joinpath_literals:
  "joinpath d (ustr ''pages'') = \<lparr>root = root d, parts = parts d @ [ustr ''pages'']\<rparr>"
  "joinpath d (ustr ''index.md'') = \<lparr>root = root d, parts = parts d @ [ustr ''index.md'']\<rparr>"
  by (rule joinpath_single; simp add: ustr_def cp_def)+

lemmas path_defs = Path_def joinpath_def splitroot_def rel_parts_def str_path_def or_str_def

lemma example_dir:
  "the_dir example_lib example_url (ustr ''.crawl'')
     = \<lparr>root = [], parts = [ustr ''.crawl'', ustr ''a'']\<rparr>"
  by (simp add: the_dir_def get_output_dir_def example_url_parsed replace_char_def path_defs
      ustr_def cp_def)

lemma example_names:
  "the_name example_lib (ustr ''http://a/z'') = ustr ''z''"
  "the_name example_lib example_url = ustr ''index''"
  unfolding the_name_def sanitize_filename_def example_url_parsed example_page_parsed sum.case
  by (simp_all add: strip_by_def replace_char_def or_str_def is_word_def ascii_alpha_def
      ascii_digit_def ustr_def cp_def)

lemma example_ordinals: "fmt_03d 0 = ustr ''000''" "fmt_03d 3 = ustr ''003''"
  by code_simp+

subsection \<open>A single-page crawl of a blank page\<close>

lemma example_blank_page:
  "crawl_page example_lib (const_crawler (Single (fetched example_url ''  '' 0))) example_url
      (ustr ''.crawl'') empty_world
   = (None,
      \<lparr>dirs = [\<lparr>root = [], parts = [ustr ''.crawl'', ustr ''a'']\<rparr>],
       files = [(joinpath \<lparr>root = [], parts = [ustr ''.crawl'', ustr ''a'']\<rparr> (ustr ''index'' @ ustr ''.md''),
                 ustr ''# '' @ example_url @ [10, 10] @ ustr ''URL: '' @ example_url @ [10, 10]
                   @ ustr ''  '')],
       stdout = [ustr ''Crawling '' @ example_url @ ustr '' ...'',
                 ustr ''Saved: '' @ str_path (joinpath \<lparr>root = [], parts = [ustr ''.crawl'', ustr ''a'']\<rparr> (ustr ''index'' @ ustr ''.md'')),
                 ustr ''Size: '' @ fmt_comma 2 @ ustr '' chars''],
       stderr = []\<rparr>)"
proof -
  have o: "get_output_dir example_lib example_url (ustr ''.crawl'')
      = Inr \<lparr>root = [], parts = [ustr ''.crawl'', ustr ''a'']\<rparr>"
    using accepted_output_dir[OF example_accepted, of "ustr ''.crawl''"] by (simp add: example_dir)
  have s: "sanitize_filename example_lib example_url = Inr (ustr ''index'')"
    using accepted_sanitize[OF example_accepted] by (simp add: example_names)
  have c: "const_crawler (Single (fetched example_url ''  '' 0)) example_url None
      = Single (fetched example_url ''  '' 0)" by (simp add: const_crawler_def)
  have l: "length (ustr ''  '') = 2" by (simp add: ustr_def)
  show ?thesis
    unfolding crawl_page_def o s c sum.case Let_def arun_result.case example_fields l
    by (simp add: example_fields mkdir_def print_def write_text_def page_text_def empty_world_def)
qed

subsection \<open>File names and URLs that step up\<close>

lemma md_name_single:
  assumes "list_all (allowed lib) f"
  shows "joinpath d (f @ ustr ''.md'') = \<lparr>root = root d, parts = parts d @ [f @ ustr ''.md'']\<rparr>"
proof -
  have m: "109 \<in> set (f @ ustr ''.md'')" by (simp add: ustr_def cp_def)
  have 1: "f @ ustr ''.md'' \<noteq> []" by (simp add: ustr_def)
  have 2: "f @ ustr ''.md'' \<noteq> ustr ''.''" using m by (auto simp: ustr_def)
  show ?thesis by (rule joinpath_single[OF md_name_safe(1)[OF assms] 1 2])
qed

lemma page_name_single:
  assumes "list_all (allowed lib) f"
  shows "joinpath d (page_filename i f) = \<lparr>root = root d, parts = parts d @ [page_filename i f]\<rparr>"
  using page_filename_safe[OF assms, of i] by (simp add: joinpath_single)

lemma traversal_url_parsed:
  "urlparse example_lib (ustr ''http://a/../../etc/passwd'') =
     Inr \<lparr>scheme = ustr ''http'', netloc = ustr ''a'', path = ustr ''/../../etc/passwd'',
          params = [], query = [], fragment = []\<rparr>"
  by (simp add: url_defs example_lib_def)

lemma traversal_url_sanitized:
  "sanitize_filename example_lib (ustr ''http://a/../../etc/passwd'') = Inr (ustr ''.._.._etc_passwd'')"
  unfolding sanitize_filename_def traversal_url_parsed sum.case
  by (simp add: strip_by_def replace_char_def or_str_def is_word_def ascii_alpha_def
      ascii_digit_def ustr_def cp_def)

lemma dotdot_url_parsed:
  "urlparse example_lib (ustr ''http://../x'') =
     Inr \<lparr>scheme = ustr ''http'', netloc = ustr ''..'', path = ustr ''/x'',
          params = [], query = [], fragment = []\<rparr>"
  by (simp add: url_defs example_lib_def)

lemma dotdot_dir:
  "the_dir example_lib (ustr ''http://../x'') (ustr ''.crawl'')
     = \<lparr>root = [], parts = [ustr ''.crawl'', ustr ''..'']\<rparr>"
  unfolding the_dir_def get_output_dir_def dotdot_url_parsed sum.case
  by (simp add: replace_char_def path_defs ustr_def cp_def)

subsection \<open>Decimal digits, titles and the single-page crawl\<close>

lemma decimal_value_snoc: "decimal_value (s @ [c]) = 10 * decimal_value s + (c - 48)"
  by (simp add: decimal_value_def)

lemma decimal_value_digits: "decimal_value (digits n) = n"
proof (induction n rule: digits.induct)
  case (1 n)
  show ?case
  proof (cases "n < 10")
    case True
    then show ?thesis by (subst digits.simps) (simp add: decimal_value_def)
  next
    case False
    then have "decimal_value (digits n) = 10 * decimal_value (digits (n div 10)) + n mod 10"
      by (subst digits.simps) (simp add: decimal_value_snoc)
    then show ?thesis using 1 False by simp
  qed
qed

lemma digits_not_Nil: "digits n \<noteq> []"
  by (subst digits.simps) simp

lemma digits_zero: "digits 0 = [48]"
  by (subst digits.simps) simp

lemma digits_no_leading_zero: "n \<noteq> 0 \<Longrightarrow> hd (digits n) \<noteq> 48"
proof (induction n rule: digits.induct)
  case (1 n)
  show ?case
  proof (cases "n < 10")
    case True
    then show ?thesis using "1.prems" by (subst digits.simps) simp
  next
    case False
    then have "n div 10 \<noteq> 0" by simp
    then have "hd (digits (n div 10)) \<noteq> 48" using 1 False by simp
    then show ?thesis using False digits_not_Nil[of "n div 10"] by (subst digits.simps) simp
  qed
qed

lemma digits_are_digits: "list_all ascii_digit (digits n)"
  using digits_chars[of n] by (simp add: list_all_iff ascii_digit_def)

lemma title_or_cases:
  "title_or r v = (case title r of None \<Rightarrow> v | Some t \<Rightarrow> if t = [] then v else t)"
  by (simp add: title_or_def or_str_def split: option.splits)

lemma depth_line_cases:
  "str_int (depth_or_0 r)
     = (case depth r of None \<Rightarrow> [48]
        | Some d \<Rightarrow> (if d < 0 then [45] else []) @ digits (nat \<bar>d\<bar>))"
  by (simp add: str_int_def depth_or_0_def digits_zero cp_def split: option.splits)

lemma crawl_page_fetched:
  assumes "accepted lib u" and "arun u None = Single r" and "success r"
  shows "crawl_page lib arun u od w =
     (None,
      w\<lparr>dirs := dirs w @ [the_dir lib u od],
        files := files w @ [(joinpath (the_dir lib u od) (the_name lib u @ ustr ''.md''),
                             page_text (title_or r u) u (get_markdown r))],
        stdout := stdout w @
          [ustr ''Crawling '' @ u @ ustr '' ...'',
           ustr ''Saved: '' @ str_path (joinpath (the_dir lib u od) (the_name lib u @ ustr ''.md'')),
           ustr ''Size: '' @ fmt_comma (length (get_markdown r)) @ ustr '' chars'']\<rparr>)"
  unfolding crawl_page_def accepted_output_dir[OF assms(1)] accepted_sanitize[OF assms(1)]
    sum.case Let_def assms(2) arun_result.case
  using assms(3) by (simp add: mkdir_def print_def write_text_def del: get_markdown.simps)

lemma site_output_layout_aux:
  assumes "urlparse lib u = Inr pr"
      and "\<forall>r\<in>set (site_results arun u md mp). kept r \<longrightarrow> accepted lib (url r)"
  shows "the_dir lib u od = joinpath (Path od) (replace_char (cp CHR '':'') (cp CHR ''_'') (netloc pr))
     \<and> pages_dir lib u od
         = \<lparr>root = root (the_dir lib u od), parts = parts (the_dir lib u od) @ [ustr ''pages'']\<rparr>
     \<and> index_path lib u od
         = \<lparr>root = root (the_dir lib u od), parts = parts (the_dir lib u od) @ [ustr ''index.md'']\<rparr>
     \<and> dirs (wld (snd (crawl_site lib arun u md mp od w))) = dirs w @ [pages_dir lib u od]
     \<and> files (wld (snd (crawl_site lib arun u md mp od w)))
         = files w
           @ map (page_file lib (pages_dir lib u od)) (kept_at (site_results arun u md mp))
           @ [(index_path lib u od,
               join [10] (index_lines u md (pages (snd (crawl_site lib arun u md mp od w)))
                            (errors (snd (crawl_site lib arun u md mp od w)))) @ [10])]
     \<and> (\<forall>ir\<in>set (kept_at (site_results arun u md mp)).
           fst ir < length (site_results arun u md mp)
           \<and> site_results arun u md mp ! fst ir = snd ir
           \<and> sanitize_filename lib (url (snd ir)) = Inr (the_name lib (url (snd ir)))
           \<and> page_file lib (pages_dir lib u od) ir
               = (\<lparr>root = root (pages_dir lib u od),
                   parts = parts (pages_dir lib u od)
                     @ [fmt_03d (fst ir) @ ustr ''_'' @ the_name lib (url (snd ir)) @ ustr ''.md'']\<rparr>,
                  ustr ''# '' @ title_or (snd ir) (url (snd ir)) @ [10, 10] @ ustr ''URL: ''
                    @ url (snd ir) @ [10] @ ustr ''Depth: '' @ str_int (depth_or_0 (snd ir))
                    @ [10, 10] @ get_markdown (snd ir)))"
proof -
  have acc: "accepted lib u" by (simp add: accepted_def assms(1))
  have d: "the_dir lib u od = joinpath (Path od) (replace_char (cp CHR '':'') (cp CHR ''_'') (netloc pr))"
    by (simp add: the_dir_def get_output_dir_def assms(1) Let_def)
  have k: "\<And>ir. ir \<in> set (kept_at (site_results arun u md mp)) \<Longrightarrow>
           fst ir < length (site_results arun u md mp)
           \<and> site_results arun u md mp ! fst ir = snd ir
           \<and> sanitize_filename lib (url (snd ir)) = Inr (the_name lib (url (snd ir)))
           \<and> page_file lib (pages_dir lib u od) ir
               = (\<lparr>root = root (pages_dir lib u od),
                   parts = parts (pages_dir lib u od)
                     @ [fmt_03d (fst ir) @ ustr ''_'' @ the_name lib (url (snd ir)) @ ustr ''.md'']\<rparr>,
                  ustr ''# '' @ title_or (snd ir) (url (snd ir)) @ [10, 10] @ ustr ''URL: ''
                    @ url (snd ir) @ [10] @ ustr ''Depth: '' @ str_int (depth_or_0 (snd ir))
                    @ [10, 10] @ get_markdown (snd ir))"
  proof -
    fix ir assume m: "ir \<in> set (kept_at (site_results arun u md mp))"
    obtain i r where ir: "ir = (i, r)" by (cases ir)
    have pos: "i < length (site_results arun u md mp) \<and> site_results arun u md mp ! i = r"
      using kept_at_position m ir by blast
    then have "r \<in> set (site_results arun u md mp)" by auto
    moreover have "kept r" using kept_at_kept[OF m] ir by simp
    ultimately have a: "accepted lib (url r)" using assms(2) by blast
    have j: "joinpath (pages_dir lib u od) (page_filename i (the_name lib (url r)))
       = \<lparr>root = root (pages_dir lib u od),
          parts = parts (pages_dir lib u od) @ [page_filename i (the_name lib (url r))]\<rparr>"
      by (rule joinpath_page_file[OF a])
    show "fst ir < length (site_results arun u md mp)
           \<and> site_results arun u md mp ! fst ir = snd ir
           \<and> sanitize_filename lib (url (snd ir)) = Inr (the_name lib (url (snd ir)))
           \<and> page_file lib (pages_dir lib u od) ir
               = (\<lparr>root = root (pages_dir lib u od),
                   parts = parts (pages_dir lib u od)
                     @ [fmt_03d (fst ir) @ ustr ''_'' @ the_name lib (url (snd ir)) @ ustr ''.md'']\<rparr>,
                  ustr ''# '' @ title_or (snd ir) (url (snd ir)) @ [10, 10] @ ustr ''URL: ''
                    @ url (snd ir) @ [10] @ ustr ''Depth: '' @ str_int (depth_or_0 (snd ir))
                    @ [10, 10] @ get_markdown (snd ir))"
      using pos accepted_sanitize[OF a]
      by (simp add: ir page_file_def page_path_def j site_page_text_def)
         (simp add: page_filename_def)
  qed
  show ?thesis
    unfolding crawl_site_result[OF acc assms(2)] snd_conv site_state.simps world.simps
    using d k by (simp add: pages_dir_def index_path_def joinpath_literals)
qed


lemma digits_small: "n < 10 \<Longrightarrow> digits n = [48 + n]"
  by (subst digits.simps) simp

lemma example_more_fields:
  "title (fetched v b d) = None" "depth (fetched v b d) = Some d"
  by (simp_all add: fetched_def)

lemma example_first_page_text:
  "snd (files (wld (snd (crawl_site example_lib example_crawler example_url 3 50
      (ustr ''.crawl'') empty_world))) ! 0)
   = site_page_text (ustr ''http://a/z'') (ustr ''http://a/z'') 1 (ustr ''Zed'')"
  unfolding crawl_site_result[OF example_accepted example_results_accepted]
    example_site_results example_kept_at
  by (simp add: empty_world_def page_file_def example_fields del: get_markdown.simps)

section \<open>The claims\<close>

text \<open>
  C4. For all integers \<open>d\<close> (depth) and \<open>p\<close> (max pages) given to the site command, \<open>main\<close>
  runs the site crawl with depth \<open>max 1 (min 10 d)\<close> and page limit \<open>max 1 (min 500 p)\<close>,
  which lie in \<open>[1, 10]\<close> and \<open>[1, 500]\<close>; these are the values handed to the crawler, since
  the run depends on the crawler only through its answer to the request that carries them.
\<close>

theorem main_site_clamps_bounds:
  "main lib arun (SiteArgs od u d p) w =
     (case crawl_site lib arun u (max 1 (min 10 d)) (max 1 (min 500 p)) od w of
        (e, st) \<Rightarrow> (e, wld st))
   \<and> 1 \<le> max 1 (min 10 d) \<and> max 1 (min 10 d) \<le> 10
   \<and> 1 \<le> max 1 (min 500 p) \<and> max 1 (min 500 p) \<le> 500
   \<and> (arun u (Some \<lparr>bfs_max_depth = max 1 (min 10 d), bfs_include_external = False,
                      bfs_max_pages = max 1 (min 500 p)\<rparr>)
        = arun' u (Some \<lparr>bfs_max_depth = max 1 (min 10 d), bfs_include_external = False,
                          bfs_max_pages = max 1 (min 500 p)\<rparr>)
      \<longrightarrow> main lib arun (SiteArgs od u d p) w = main lib arun' (SiteArgs od u d p) w)"
proof -
  have m: "\<And>a. main lib a (SiteArgs od u d p) w =
     (case crawl_site lib a u (max 1 (min 10 d)) (max 1 (min 500 p)) od w of
        (e, st) \<Rightarrow> (e, wld st))"
    by (simp add: main_def Let_def)
  show ?thesis
    unfolding m using crawl_site_cong[of arun u "max 1 (min 10 d)" "max 1 (min 500 p)" arun' lib od w]
    by simp
qed

theorem main_site_clamps_bounds_witness:
  "const_crawler (Multiple []) (ustr ''http://a/'')
      (Some \<lparr>bfs_max_depth = max 1 (min 10 42), bfs_include_external = False,
              bfs_max_pages = max 1 (min 500 0)\<rparr>)
    = resolved_crawler (const_crawler (Multiple [])) (ustr ''http://a/'')
      (Some \<lparr>bfs_max_depth = max 1 (min 10 42), bfs_include_external = False,
              bfs_max_pages = max 1 (min 500 0)\<rparr>)
   \<and> main example_lib (const_crawler (Multiple [])) (SiteArgs (ustr ''.crawl'') (ustr ''http://a/'') 42 0) empty_world
     = main example_lib (resolved_crawler (const_crawler (Multiple []))) (SiteArgs (ustr ''.crawl'') (ustr ''http://a/'') 42 0) empty_world
   \<and> max 1 (min 10 (42::int)) = 10 \<and> max 1 (min 500 (0::int)) = 1"
proof -
  have h: "const_crawler (Multiple []) (ustr ''http://a/'')
      (Some \<lparr>bfs_max_depth = max 1 (min 10 42), bfs_include_external = False,
              bfs_max_pages = max 1 (min 500 0)\<rparr>)
    = resolved_crawler (const_crawler (Multiple [])) (ustr ''http://a/'')
      (Some \<lparr>bfs_max_depth = max 1 (min 10 42), bfs_include_external = False,
              bfs_max_pages = max 1 (min 500 0)\<rparr>)"
    by (simp add: const_crawler_def resolved_crawler_def)
  have t: "main example_lib (const_crawler (Multiple [])) (SiteArgs (ustr ''.crawl'') (ustr ''http://a/'') 42 0) empty_world
     = main example_lib (resolved_crawler (const_crawler (Multiple []))) (SiteArgs (ustr ''.crawl'') (ustr ''http://a/'') 42 0) empty_world"
    using h main_site_clamps_bounds[of example_lib "const_crawler (Multiple [])"
        "ustr ''.crawl''" "ustr ''http://a/''" 42 0 empty_world
        "resolved_crawler (const_crawler (Multiple []))"]
    by blast
  show ?thesis by (intro conjI h t) simp_all
qed

text \<open>
  C8. \<open>get_markdown\<close> is total and returns a string: the empty string when the markdown
  attribute is \<open>None\<close>, the attribute when it is a string, and otherwise \<open>raw_markdown\<close>,
  falling back to \<open>fit_markdown\<close>, falling back to the empty string. The resolution happens
  once: both crawls give the same result when every crawl result already carries the
  resolved string in place of its markdown attribute.
\<close>

theorem get_markdown_total:
  "get_markdown (r\<lparr>markdown := MdNone\<rparr>) = []
   \<and> get_markdown (r\<lparr>markdown := MdStr s\<rparr>) = s
   \<and> get_markdown (r\<lparr>markdown := MdObj raw fit\<rparr>)
       = or_str (case raw of None \<Rightarrow> [] | Some x \<Rightarrow> x)
           (or_str (case fit of None \<Rightarrow> [] | Some x \<Rightarrow> x) [])
   \<and> crawl_page lib (resolved_crawler arun) u od w = crawl_page lib arun u od w
   \<and> crawl_site lib (resolved_crawler arun) u md mp od w = crawl_site lib arun u md mp od w"
  by (simp add: crawl_page_resolved crawl_site_resolved or_str_def truthy_def split: option.splits)

text \<open>
  C9. Sanitization is idempotent: a name that \<open>sanitize_filename\<close> returns for some URL
  consists of word characters, hyphens and dots, is not empty and has at most 100
  characters, and \<open>sanitize_filename\<close> maps it to itself.
\<close>

theorem sanitize_filename_idempotent:
  "sanitize_filename lib u = Inr s \<Longrightarrow>
   sanitize_filename lib s = Inr s \<and> list_all (allowed lib) s \<and> s \<noteq> [] \<and> length s \<le> 100"
  using sanitize_alphabet[of lib u s] sanitize_idem[of lib u s] by blast

theorem sanitize_filename_idempotent_witness:
  "sanitize_filename example_lib (ustr ''http://a/b c'') = Inr (ustr ''b_c'')
   \<and> sanitize_filename example_lib (ustr ''b_c'') = Inr (ustr ''b_c'')"
proof -
  have h: "sanitize_filename example_lib (ustr ''http://a/b c'') = Inr (ustr ''b_c'')"
    by code_simp
  show ?thesis using h sanitize_filename_idempotent[OF h] by simp
qed

text \<open>
  C1. In a site crawl a failed page does not abort the run: one step of the loop on a
  result whose success flag is false adds exactly one to the error counter and goes on.
  When the start URL and the URLs of the kept results are accepted by \<open>urlparse\<close>
  (nothing is asked of the failed results), the crawl returns, its error count is the
  number of unsuccessful results, and the index file is written last, carrying that count.
\<close>

theorem site_crawl_counts_failures:
  assumes "accepted lib u"
      and "\<forall>r\<in>set (site_results arun u md mp). kept r \<longrightarrow> accepted lib (url r)"
  shows "fst (crawl_site lib arun u md mp od w) = None
     \<and> errors (snd (crawl_site lib arun u md mp od w))
         = length (filter failed (site_results arun u md mp))
     \<and> last (files (wld (snd (crawl_site lib arun u md mp od w))))
         = (index_path lib u od,
            join [10] (index_lines u md (pages (snd (crawl_site lib arun u md mp od w)))
                         (length (filter failed (site_results arun u md mp)))) @ [10])
     \<and> index_lines u md (pages (snd (crawl_site lib arun u md mp od w)))
           (length (filter failed (site_results arun u md mp))) ! 1
         = ustr ''Pages: '' @ digits (length (filter kept (site_results arun u md mp)))
             @ ustr '' crawled, '' @ digits (length (filter failed (site_results arun u md mp)))
             @ ustr '' errors''
     \<and> (\<forall>i r st. failed r \<longrightarrow>
           site_step lib (pages_dir lib u od) (i, r) st = (None, st\<lparr>errors := errors st + 1\<rparr>))"
  unfolding crawl_site_result[OF assms]
  by (simp add: index_lines_def length_kept_at failed_def site_step_failed)

theorem site_crawl_counts_failures_witness:
  "fst (crawl_site example_lib example_crawler example_url 3 50 (ustr ''.crawl'') empty_world) = None
   \<and> errors (snd (crawl_site example_lib example_crawler example_url 3 50 (ustr ''.crawl'') empty_world)) = 1"
  using site_crawl_counts_failures[OF example_accepted example_results_accepted,
      of 3 50 "ustr ''.crawl''" empty_world]
  by (simp add: example_site_results example_failed)

text \<open>
  C3. When the fetch of a single-page crawl is unsuccessful, the program prints the error
  message to standard error and ends with \<open>SystemExit 1\<close>, a non-zero status, having made
  the output directory but written no file. The site crawl never ends with \<open>SystemExit\<close>,
  and when the start URL and the URLs of the kept results are accepted it returns whatever
  the number of failed pages, printing the aggregate count of errors.
\<close>

theorem page_crawl_exits_site_crawl_reports:
  "(accepted lib u \<and> arun u None = Single r \<and> \<not> success r \<longrightarrow>
      crawl_page lib arun u od w =
        (Some (SystemExit 1),
         w\<lparr>dirs := dirs w @ [the_dir lib u od],
           stdout := stdout w @ [ustr ''Crawling '' @ u @ ustr '' ...''],
           stderr := stderr w @ [ustr ''Error: '' @ str_opt (error_message r)]\<rparr>)
      \<and> files (snd (crawl_page lib arun u od w)) = files w)
   \<and> (\<forall>n. fst (crawl_site lib arun u md mp od w) \<noteq> Some (SystemExit n))
   \<and> (accepted lib u \<and> (\<forall>r\<in>set (site_results arun u md mp). kept r \<longrightarrow> accepted lib (url r)) \<longrightarrow>
        fst (crawl_site lib arun u md mp od w) = None
        \<and> stdout (wld (snd (crawl_site lib arun u md mp od w))) ! (length (stdout w) + 2)
            = ustr ''Pages: '' @ digits (length (filter kept (site_results arun u md mp)))
                @ ustr '' crawled, '' @ digits (length (filter failed (site_results arun u md mp)))
                @ ustr '' errors'')"
proof (intro conjI impI allI)
  assume a: "accepted lib u \<and> arun u None = Single r \<and> \<not> success r"
  then show "crawl_page lib arun u od w =
        (Some (SystemExit 1),
         w\<lparr>dirs := dirs w @ [the_dir lib u od],
           stdout := stdout w @ [ustr ''Crawling '' @ u @ ustr '' ...''],
           stderr := stderr w @ [ustr ''Error: '' @ str_opt (error_message r)]\<rparr>)"
    using crawl_page_fetch_failed by blast
  then show "files (snd (crawl_page lib arun u od w)) = files w" by simp
next
  fix n show "fst (crawl_site lib arun u md mp od w) \<noteq> Some (SystemExit n)"
    by (rule crawl_site_never_exits)
next
  assume a: "accepted lib u \<and> (\<forall>r\<in>set (site_results arun u md mp). kept r \<longrightarrow> accepted lib (url r))"
  then have r: "crawl_site lib arun u md mp od w = (None, snd (crawl_site lib arun u md mp od w))"
    using crawl_site_result[of lib u arun md mp od w] by simp
  show "fst (crawl_site lib arun u md mp od w) = None" using r by (metis fst_conv)
  show "stdout (wld (snd (crawl_site lib arun u md mp od w))) ! (length (stdout w) + 2)
            = ustr ''Pages: '' @ digits (length (filter kept (site_results arun u md mp)))
                @ ustr '' crawled, '' @ digits (length (filter failed (site_results arun u md mp)))
                @ ustr '' errors''"
    using a crawl_site_result[of lib u arun md mp od w]
    by (simp add: nth_append length_kept_at)
qed

theorem page_crawl_exits_site_crawl_reports_witness:
  "crawl_page example_lib (const_crawler (Single (unfetched example_url))) example_url
      (ustr ''.crawl'') empty_world
    = (Some (SystemExit 1),
       empty_world\<lparr>dirs := dirs empty_world @ [the_dir example_lib example_url (ustr ''.crawl'')],
         stdout := stdout empty_world @ [ustr ''Crawling '' @ example_url @ ustr '' ...''],
         stderr := stderr empty_world @ [ustr ''Error: '' @ ustr ''404'']\<rparr>)
   \<and> fst (crawl_site example_lib example_crawler example_url 3 50 (ustr ''.crawl'') empty_world) = None
   \<and> stdout (wld (snd (crawl_site example_lib example_crawler example_url 3 50 (ustr ''.crawl'') empty_world))) ! 2
       = ustr ''Pages: '' @ ustr ''2'' @ ustr '' crawled, '' @ ustr ''1'' @ ustr '' errors''"
proof -
  have d: "digits 2 = ustr ''2''" "digits 1 = ustr ''1''"
    by (simp_all add: digits.simps ustr_def cp_def)
  have k: "length (filter kept example_results) = 2"
    by (simp add: example_results_def example_kept)
  have f: "length (filter failed example_results) = 1"
    by (simp add: example_failed)
  have e: "str_opt (error_message (unfetched example_url)) = ustr ''404''"
    by (simp add: unfetched_def str_opt_def)
  have s: "stdout empty_world = []" by (simp add: empty_world_def)
  have c: "const_crawler (Single (unfetched example_url)) example_url None
             = Single (unfetched example_url)"
    by (simp add: const_crawler_def)
  note t1 = page_crawl_exits_site_crawl_reports[of example_lib example_url
        "const_crawler (Single (unfetched example_url))" "unfetched example_url"
        "ustr ''.crawl''" empty_world 3 50]
  note t2 = page_crawl_exits_site_crawl_reports[of example_lib example_url
        example_crawler "unfetched example_url"
        "ustr ''.crawl''" empty_world 3 50]
  have p1: "crawl_page example_lib (const_crawler (Single (unfetched example_url))) example_url
      (ustr ''.crawl'') empty_world
    = (Some (SystemExit 1),
       empty_world\<lparr>dirs := dirs empty_world @ [the_dir example_lib example_url (ustr ''.crawl'')],
         stdout := stdout empty_world @ [ustr ''Crawling '' @ example_url @ ustr '' ...''],
         stderr := stderr empty_world @ [ustr ''Error: '' @ ustr ''404'']\<rparr>)"
    using t1 example_accepted c example_fields(3)[of example_url] unfolding e by blast
  have p2: "fst (crawl_site example_lib example_crawler example_url 3 50 (ustr ''.crawl'') empty_world) = None
        \<and> stdout (wld (snd (crawl_site example_lib example_crawler example_url 3 50 (ustr ''.crawl'') empty_world))) ! (length (stdout empty_world) + 2)
            = ustr ''Pages: '' @ digits (length (filter kept (site_results example_crawler example_url 3 50)))
                @ ustr '' crawled, '' @ digits (length (filter failed (site_results example_crawler example_url 3 50)))
                @ ustr '' errors''"
    using t2 example_accepted example_results_accepted[of 3 50] by blast
  show ?thesis
    using p1 p2 unfolding example_site_results k f s d by (simp add: numeral_2_eq_2)
qed

text \<open>
  C5. The page entries that the site crawl ends with, which are the entries the index lists
  in order after its four header lines, are sorted by the pair of depth and URL: depth
  ascending, and the URL in lexicographic order among equal depths. They are the entries
  of the kept results, in whatever order the results arrived.
\<close>

theorem site_pages_sorted:
  assumes "accepted lib u"
      and "\<forall>r\<in>set (site_results arun u md mp). kept r \<longrightarrow> accepted lib (url r)"
  shows "sorted (map sort_key_of (pages (snd (crawl_site lib arun u md mp od w))))
     \<and> (\<forall>p q. (sort_key_of p \<le> sort_key_of q)
           = (p_depth p < p_depth q \<or> p_depth p = p_depth q \<and> p_url p \<le> p_url q))
     \<and> pages (snd (crawl_site lib arun u md mp od w))
         = sort_key sort_key_of
             (map (page_entry lib (pages_dir lib u od)) (kept_at (site_results arun u md mp)))
     \<and> set (pages (snd (crawl_site lib arun u md mp od w)))
         = page_entry lib (pages_dir lib u od) ` set (kept_at (site_results arun u md mp))
     \<and> length (pages (snd (crawl_site lib arun u md mp od w)))
         = length (kept_at (site_results arun u md mp))
     \<and> last (files (wld (snd (crawl_site lib arun u md mp od w))))
         = (index_path lib u od,
            join [10] (index_lines u md (pages (snd (crawl_site lib arun u md mp od w)))
                         (errors (snd (crawl_site lib arun u md mp od w)))) @ [10])
     \<and> drop 4 (index_lines u md (pages (snd (crawl_site lib arun u md mp od w)))
                  (errors (snd (crawl_site lib arun u md mp od w))))
         = concat (map index_entry (pages (snd (crawl_site lib arun u md mp od w))))"
  unfolding crawl_site_result[OF assms]
  by (simp add: sort_key_of_le index_lines_def)

theorem site_pages_sorted_witness:
  "map url example_results
     = [ustr ''http://a/z'', ustr ''http://a/x'', ustr ''http://a/b'', example_url]
   \<and> sorted (map sort_key_of (pages (snd (crawl_site example_lib example_crawler example_url 3 50
      (ustr ''.crawl'') empty_world))))
   \<and> map p_url (pages (snd (crawl_site example_lib example_crawler example_url 3 50
      (ustr ''.crawl'') empty_world))) = [example_url, ustr ''http://a/z'']"
proof -
  note t = site_pages_sorted[OF example_accepted example_results_accepted,
      of 3 50 "ustr ''.crawl''" empty_world]
  have 1: "sorted (map sort_key_of (pages (snd (crawl_site example_lib example_crawler
      example_url 3 50 (ustr ''.crawl'') empty_world))))"
    using t by blast
  have 2: "pages (snd (crawl_site example_lib example_crawler example_url 3 50
      (ustr ''.crawl'') empty_world))
      = sort_key sort_key_of
          (map (page_entry example_lib (pages_dir example_lib example_url (ustr ''.crawl'')))
             (kept_at (site_results example_crawler example_url 3 50)))"
    using t by blast
  have 3: "map url example_results
     = [ustr ''http://a/z'', ustr ''http://a/x'', ustr ''http://a/b'', example_url]"
    by (simp add: example_results_def example_fields unfetched_def)
  show ?thesis
    using 1 3 unfolding 2 example_site_results example_sorted_urls by simp
qed

text \<open>
  C10. In a site crawl every page entry records as its size the length of the markdown body
  written to its file, and that size is positive; so the total that is reported is the sum
  of the body lengths of the page files written.
\<close>

theorem site_index_sizes:
  assumes "accepted lib u"
      and "\<forall>r\<in>set (site_results arun u md mp). kept r \<longrightarrow> accepted lib (url r)"
  shows "(\<forall>p\<in>set (pages (snd (crawl_site lib arun u md mp od w))). 0 < p_size p)
     \<and> pages (snd (crawl_site lib arun u md mp od w))
         = sort_key sort_key_of
             (map (page_entry lib (pages_dir lib u od)) (kept_at (site_results arun u md mp)))
     \<and> butlast (files (wld (snd (crawl_site lib arun u md mp od w))))
         = files w @ map (page_file lib (pages_dir lib u od)) (kept_at (site_results arun u md mp))
     \<and> (\<forall>ir\<in>set (kept_at (site_results arun u md mp)).
           p_file (page_entry lib (pages_dir lib u od) ir)
             = str_path (fst (page_file lib (pages_dir lib u od) ir))
           \<and> snd (page_file lib (pages_dir lib u od) ir)
             = ustr ''# '' @ title_or (snd ir) (url (snd ir)) @ [10, 10] @ ustr ''URL: ''
                 @ url (snd ir) @ [10] @ ustr ''Depth: '' @ str_int (depth_or_0 (snd ir))
                 @ [10, 10] @ get_markdown (snd ir)
           \<and> p_size (page_entry lib (pages_dir lib u od) ir) = length (get_markdown (snd ir))
           \<and> 0 < length (get_markdown (snd ir)))
     \<and> sum_list (map p_size (pages (snd (crawl_site lib arun u md mp od w))))
         = sum_list (map (\<lambda>ir. length (get_markdown (snd ir)))
                      (kept_at (site_results arun u md mp)))
     \<and> last (stdout (wld (snd (crawl_site lib arun u md mp od w))))
         = ustr ''Total content: ''
             @ fmt_comma (sum_list (map (\<lambda>ir. length (get_markdown (snd ir)))
                                      (kept_at (site_results arun u md mp))))
             @ ustr '' chars''"
proof -
  have pos: "\<And>ir. ir \<in> set (kept_at (site_results arun u md mp)) \<Longrightarrow> 0 < length (get_markdown (snd ir))"
    using kept_at_kept kept_not_blank by blast
  have sum: "sum_list (map p_size (sort_key sort_key_of
                (map (page_entry lib (pages_dir lib u od)) (kept_at (site_results arun u md mp)))))
      = sum_list (map (\<lambda>ir. length (get_markdown (snd ir))) (kept_at (site_results arun u md mp)))"
    by (simp add: sum_list_sort_key comp_def page_entry_fields)
  show ?thesis
    unfolding crawl_site_result[OF assms] snd_conv site_state.simps world.simps sum
    using pos
    by (simp add: page_entry_fields butlast_append)
       (simp add: page_file_def site_page_text_def)
qed

theorem site_index_sizes_witness:
  "sum_list (map p_size (pages (snd (crawl_site example_lib example_crawler example_url 3 50
      (ustr ''.crawl'') empty_world)))) = 12
   \<and> last (stdout (wld (snd (crawl_site example_lib example_crawler example_url 3 50
      (ustr ''.crawl'') empty_world)))) = ustr ''Total content: '' @ ustr ''12'' @ ustr '' chars''"
proof -
  have s: "sum_list (map (\<lambda>ir. length (get_markdown (snd ir))) (kept_at example_results)) = 12"
    by (simp add: example_kept_at example_fields ustr_def del: get_markdown.simps)
  have f: "fmt_comma 12 = ustr ''12''"
    by (simp add: fmt_comma.simps digits.simps ustr_def cp_def)
  show ?thesis
    using site_index_sizes[OF example_accepted example_results_accepted,
      of 3 50 "ustr ''.crawl''" empty_world]
    unfolding example_site_results s f by blast
qed

text \<open>
  C7. The claim lists a page file as a header line, a URL line, a depth line, a blank line
  and the body. The file that \<open>crawl_site\<close> writes has a blank line between the header
  line and the URL line as well: these are the lines of the first page file of the example
  site, which are not the five that the claim lists.
\<close>

theorem page_text_blank_line_counterexample:
  "split_sep 10 (snd (files (wld (snd (crawl_site example_lib example_crawler example_url 3 50
      (ustr ''.crawl'') empty_world))) ! 0))
    = [ustr ''# http://a/z'', [], ustr ''URL: http://a/z'', ustr ''Depth: 1'', [], ustr ''Zed'']
   \<and> split_sep 10 (snd (files (wld (snd (crawl_site example_lib example_crawler example_url 3 50
      (ustr ''.crawl'') empty_world))) ! 0))
    \<noteq> [ustr ''# http://a/z'', ustr ''URL: http://a/z'', ustr ''Depth: 1'', [], ustr ''Zed'']"
  unfolding example_first_page_text
  by (simp add: site_page_text_def str_int_def digits_small ustr_def cp_def)

text \<open>
  C7, as amended. The output of a site crawl: the per-domain directory is the output
  directory joined with the network location of the start URL (colons replaced by
  underscores); the directory \<open>pages\<close> is made below it; the kept result at position \<open>i\<close> of
  the result list is written to the file \<open>pages/{i:03d}_{sanitized name}.md\<close> below it, a
  single path component whose ordinal is \<open>i\<close> in decimal, padded with zeros to three digits;
  the text of the file is a header line with the title (the URL when the result has no
  title or an empty one), a blank line, a URL line, a depth line with the depth in decimal
  (0 when the result has none), a blank line, and the markdown body; and \<open>index.md\<close> is
  written below the per-domain directory after the page files. The decimal digits of a
  number denote it, and have no leading zero.
\<close>

theorem site_output_layout:
  assumes "urlparse lib u = Inr pr"
      and "\<forall>r\<in>set (site_results arun u md mp). kept r \<longrightarrow> accepted lib (url r)"
  shows "the_dir lib u od = joinpath (Path od) (replace_char (cp CHR '':'') (cp CHR ''_'') (netloc pr))
     \<and> pages_dir lib u od
         = \<lparr>root = root (the_dir lib u od), parts = parts (the_dir lib u od) @ [ustr ''pages'']\<rparr>
     \<and> index_path lib u od
         = \<lparr>root = root (the_dir lib u od), parts = parts (the_dir lib u od) @ [ustr ''index.md'']\<rparr>
     \<and> dirs (wld (snd (crawl_site lib arun u md mp od w))) = dirs w @ [pages_dir lib u od]
     \<and> files (wld (snd (crawl_site lib arun u md mp od w)))
         = files w
           @ map (page_file lib (pages_dir lib u od)) (kept_at (site_results arun u md mp))
           @ [(index_path lib u od,
               join [10] (index_lines u md (pages (snd (crawl_site lib arun u md mp od w)))
                            (errors (snd (crawl_site lib arun u md mp od w)))) @ [10])]
     \<and> (\<forall>ir\<in>set (kept_at (site_results arun u md mp)).
           fst ir < length (site_results arun u md mp)
           \<and> site_results arun u md mp ! fst ir = snd ir
           \<and> sanitize_filename lib (url (snd ir)) = Inr (the_name lib (url (snd ir)))
           \<and> page_file lib (pages_dir lib u od) ir
               = (\<lparr>root = root (pages_dir lib u od),
                   parts = parts (pages_dir lib u od)
                     @ [replicate (3 - length (digits (fst ir))) 48 @ digits (fst ir) @ ustr ''_''
                          @ the_name lib (url (snd ir)) @ ustr ''.md'']\<rparr>,
                  ustr ''# ''
                    @ (case title (snd ir) of None \<Rightarrow> url (snd ir)
                       | Some t \<Rightarrow> if t = [] then url (snd ir) else t)
                    @ [10, 10] @ ustr ''URL: '' @ url (snd ir) @ [10] @ ustr ''Depth: ''
                    @ (case depth (snd ir) of None \<Rightarrow> [48]
                       | Some d \<Rightarrow> (if d < 0 then [45] else []) @ digits (nat \<bar>d\<bar>))
                    @ [10, 10] @ get_markdown (snd ir)))
     \<and> (\<forall>n. decimal_value (digits n) = n \<and> list_all ascii_digit (digits n)
              \<and> hd (digits (Suc n)) \<noteq> 48)
     \<and> digits 0 = [48]"
proof -
  note a = site_output_layout_aux[OF assms, of od w,
      unfolded title_or_cases depth_line_cases fmt_03d_def cp_vals append_assoc]
  have d: "\<forall>n. decimal_value (digits n) = n \<and> list_all ascii_digit (digits n)
              \<and> hd (digits (Suc n)) \<noteq> 48"
    using decimal_value_digits digits_are_digits digits_no_leading_zero by simp
  show ?thesis
    using a d digits_zero unfolding cp_vals by blast
qed

theorem site_output_layout_witness:
  "map fst (files (wld (snd (crawl_site example_lib example_crawler example_url 3 50
      (ustr ''.crawl'') empty_world))))
    = [\<lparr>root = [], parts = [ustr ''.crawl'', ustr ''a'', ustr ''pages'',
                             ustr ''000'' @ ustr ''_'' @ ustr ''z'' @ ustr ''.md'']\<rparr>,
       \<lparr>root = [], parts = [ustr ''.crawl'', ustr ''a'', ustr ''pages'',
                             ustr ''003'' @ ustr ''_'' @ ustr ''index'' @ ustr ''.md'']\<rparr>,
       \<lparr>root = [], parts = [ustr ''.crawl'', ustr ''a'', ustr ''index.md'']\<rparr>]
   \<and> snd (files (wld (snd (crawl_site example_lib example_crawler example_url 3 50
      (ustr ''.crawl'') empty_world))) ! 0)
    = ustr ''# '' @ ustr ''http://a/z'' @ [10, 10] @ ustr ''URL: '' @ ustr ''http://a/z'' @ [10]
        @ ustr ''Depth: '' @ ustr ''1'' @ [10, 10] @ ustr ''Zed''"
proof -
  note t = site_output_layout[OF example_url_parsed example_results_accepted,
      where md=3 and mp=50 and od="ustr ''.crawl''" and w=empty_world]
  have f: "files (wld (snd (crawl_site example_lib example_crawler example_url 3 50
      (ustr ''.crawl'') empty_world)))
      = files empty_world
           @ map (page_file example_lib (pages_dir example_lib example_url (ustr ''.crawl'')))
               (kept_at (site_results example_crawler example_url 3 50))
           @ [(index_path example_lib example_url (ustr ''.crawl''),
               join [10] (index_lines example_url 3
                    (pages (snd (crawl_site example_lib example_crawler example_url 3 50
                        (ustr ''.crawl'') empty_world)))
                    (errors (snd (crawl_site example_lib example_crawler example_url 3 50
                        (ustr ''.crawl'') empty_world)))) @ [10])]"
    using t by blast
  have pd: "pages_dir example_lib example_url (ustr ''.crawl'')
      = \<lparr>root = [], parts = [ustr ''.crawl'', ustr ''a'', ustr ''pages'']\<rparr>"
    and ip: "index_path example_lib example_url (ustr ''.crawl'')
      = \<lparr>root = [], parts = [ustr ''.crawl'', ustr ''a'', ustr ''index.md'']\<rparr>"
    using t by (simp_all add: example_dir)
  have pf: "\<forall>ir\<in>set (kept_at (site_results example_crawler example_url 3 50)).
           page_file example_lib (pages_dir example_lib example_url (ustr ''.crawl'')) ir
               = (\<lparr>root = root (pages_dir example_lib example_url (ustr ''.crawl'')),
                   parts = parts (pages_dir example_lib example_url (ustr ''.crawl''))
                     @ [replicate (3 - length (digits (fst ir))) 48 @ digits (fst ir) @ ustr ''_''
                          @ the_name example_lib (url (snd ir)) @ ustr ''.md'']\<rparr>,
                  ustr ''# ''
                    @ (case title (snd ir) of None \<Rightarrow> url (snd ir)
                       | Some t \<Rightarrow> if t = [] then url (snd ir) else t)
                    @ [10, 10] @ ustr ''URL: '' @ url (snd ir) @ [10] @ ustr ''Depth: ''
                    @ (case depth (snd ir) of None \<Rightarrow> [48]
                       | Some d \<Rightarrow> (if d < 0 then [45] else []) @ digits (nat \<bar>d\<bar>))
                    @ [10, 10] @ get_markdown (snd ir))"
    using t by blast
  have dg: "digits 0 = ustr ''0''" "digits 3 = ustr ''3''" "digits (Suc 0) = ustr ''1''"
    "replicate (3 - length (ustr ''0'')) (48::nat) @ ustr ''0'' = ustr ''000''"
    "replicate (3 - length (ustr ''3'')) (48::nat) @ ustr ''3'' = ustr ''003''"
    by code_simp+
  show ?thesis
    using pf unfolding f example_site_results example_kept_at pd ip
    by (simp add: example_fields example_more_fields example_names dg empty_world_def
        del: get_markdown.simps)
qed

text \<open>
  C2. The claim that every crawl command skips a fetched page whose markdown has no
  non-whitespace text does not hold for the single-page crawl: \<open>crawl_page\<close> has no such
  test and writes the page file whatever the text is. Here the page is fetched, its
  markdown is two spaces, and the file is written.
\<close>

theorem page_crawl_persists_blank_counterexample:
  "success (fetched example_url ''  '' 0)
   \<and> list_all isspace (get_markdown (fetched example_url ''  '' 0))
   \<and> fst (crawl_page example_lib (const_crawler (Single (fetched example_url ''  '' 0)))
           example_url (ustr ''.crawl'') empty_world) = None
   \<and> files (snd (crawl_page example_lib (const_crawler (Single (fetched example_url ''  '' 0)))
           example_url (ustr ''.crawl'') empty_world))
       = [(\<lparr>root = [], parts = [ustr ''.crawl'', ustr ''a'', ustr ''index'' @ ustr ''.md'']\<rparr>,
           ustr ''# '' @ example_url @ [10, 10] @ ustr ''URL: '' @ example_url @ [10, 10]
             @ ustr ''  '')]"
proof -
  have j: "joinpath \<lparr>root = [], parts = [ustr ''.crawl'', ustr ''a'']\<rparr> (ustr ''index'' @ ustr ''.md'')
      = \<lparr>root = [], parts = [ustr ''.crawl'', ustr ''a'', ustr ''index'' @ ustr ''.md'']\<rparr>"
    by (simp add: path_defs ustr_def cp_def)
  have b: "list_all isspace (ustr ''  '')" by (simp add: ustr_def cp_def isspace_def)
  show ?thesis
    unfolding example_blank_page by (simp add: example_fields b j del: get_markdown.simps)
qed

text \<open>
  C2, as amended. In the site crawl, a step of the loop on a fetched result whose markdown
  has no non-whitespace text changes nothing: no file, no page entry, no error counted.
  So in a crawl that returns, the page files and the page entries are those of the kept
  results, each of them fetched and with some non-whitespace text, and the error count is
  the number of unsuccessful results. The single-page crawl makes no such test: whenever
  the page is fetched it returns and writes the page file, whatever the markdown is.
\<close>

theorem site_crawl_skips_blank_pages:
  "(success r \<and> list_all isspace (get_markdown r) \<longrightarrow> site_step lib pd (i, r) st = (None, st))
   \<and> (accepted lib u \<and> (\<forall>r\<in>set (site_results arun u md mp). kept r \<longrightarrow> accepted lib (url r)) \<longrightarrow>
        butlast (files (wld (snd (crawl_site lib arun u md mp od w))))
          = files w @ map (page_file lib (pages_dir lib u od)) (kept_at (site_results arun u md mp))
        \<and> set (pages (snd (crawl_site lib arun u md mp od w)))
            = page_entry lib (pages_dir lib u od) ` set (kept_at (site_results arun u md mp))
        \<and> errors (snd (crawl_site lib arun u md mp od w))
            = length (filter failed (site_results arun u md mp))
        \<and> (\<forall>ir\<in>set (kept_at (site_results arun u md mp)).
              success (snd ir) \<and> \<not> list_all isspace (get_markdown (snd ir))))
   \<and> (accepted lib v \<and> fetch v None = Single r1 \<and> success r1 \<longrightarrow>
        fst (crawl_page lib fetch v od w) = None
        \<and> sanitize_filename lib v = Inr (the_name lib v)
        \<and> files (snd (crawl_page lib fetch v od w))
            = files w
              @ [(joinpath (the_dir lib v od) (the_name lib v @ ustr ''.md''),
                  ustr ''# ''
                    @ (case title r1 of None \<Rightarrow> v | Some t \<Rightarrow> if t = [] then v else t)
                    @ [10, 10] @ ustr ''URL: '' @ v @ [10, 10] @ get_markdown r1)])"
proof (intro conjI impI)
  assume "success r \<and> list_all isspace (get_markdown r)"
  then show "site_step lib pd (i, r) st = (None, st)"
    using site_step_blank[of r lib pd i st] by (simp add: blank_iff)
next
  assume a: "accepted lib u \<and> (\<forall>r\<in>set (site_results arun u md mp). kept r \<longrightarrow> accepted lib (url r))"
  note res = crawl_site_result[of lib u arun md mp od w, OF conjunct1[OF a] conjunct2[OF a]]
  show "butlast (files (wld (snd (crawl_site lib arun u md mp od w))))
          = files w @ map (page_file lib (pages_dir lib u od)) (kept_at (site_results arun u md mp))"
    unfolding res by (simp add: butlast_append)
  show "set (pages (snd (crawl_site lib arun u md mp od w)))
            = page_entry lib (pages_dir lib u od) ` set (kept_at (site_results arun u md mp))"
    unfolding res by simp
  show "errors (snd (crawl_site lib arun u md mp od w))
            = length (filter failed (site_results arun u md mp))"
    unfolding res by simp
  show "\<forall>ir\<in>set (kept_at (site_results arun u md mp)).
              success (snd ir) \<and> \<not> list_all isspace (get_markdown (snd ir))"
    using kept_at_kept kept_not_blank by (auto simp: kept_def)
next
  assume b: "accepted lib v \<and> fetch v None = Single r1 \<and> success r1"
  then have acc: "accepted lib v" and f: "fetch v None = Single r1" and s: "success r1"
    by blast+
  note p = crawl_page_fetched[where lib=lib and arun=fetch and u=v and r=r1 and od=od and w=w,
      OF acc f s]
  show "fst (crawl_page lib fetch v od w) = None" unfolding p by simp
  show "sanitize_filename lib v = Inr (the_name lib v)" by (rule accepted_sanitize[OF acc])
  show "files (snd (crawl_page lib fetch v od w))
            = files w
              @ [(joinpath (the_dir lib v od) (the_name lib v @ ustr ''.md''),
                  ustr ''# ''
                    @ (case title r1 of None \<Rightarrow> v | Some t \<Rightarrow> if t = [] then v else t)
                    @ [10, 10] @ ustr ''URL: '' @ v @ [10, 10] @ get_markdown r1)]"
    unfolding p by (simp add: page_text_def title_or_cases del: get_markdown.simps)
qed

theorem site_crawl_skips_blank_pages_witness:
  "site_step example_lib (pages_dir example_lib example_url (ustr ''.crawl''))
      (2, fetched (ustr ''http://a/b'') ''  '' 1) \<lparr>pages = [], errors = 0, wld = empty_world\<rparr>
     = (None, \<lparr>pages = [], errors = 0, wld = empty_world\<rparr>)
   \<and> length (butlast (files (wld (snd (crawl_site example_lib example_crawler example_url 3 50
        (ustr ''.crawl'') empty_world))))) = 2
   \<and> errors (snd (crawl_site example_lib example_crawler example_url 3 50
        (ustr ''.crawl'') empty_world)) = 1
   \<and> files (snd (crawl_page example_lib (const_crawler (Single (fetched example_url ''  '' 0)))
        example_url (ustr ''.crawl'') empty_world))
       = [(joinpath \<lparr>root = [], parts = [ustr ''.crawl'', ustr ''a'']\<rparr> (ustr ''index'' @ ustr ''.md''),
           ustr ''# '' @ example_url @ [10, 10] @ ustr ''URL: '' @ example_url @ [10, 10]
             @ ustr ''  '')]"
proof -
  have b: "success (fetched (ustr ''http://a/b'') ''  '' 1)
      \<and> list_all isspace (get_markdown (fetched (ustr ''http://a/b'') ''  '' 1))"
    by (simp add: example_fields ustr_def cp_def isspace_def del: get_markdown.simps)
  have c: "const_crawler (Single (fetched example_url ''  '' 0)) example_url None
      = Single (fetched example_url ''  '' 0)"
    by (simp add: const_crawler_def)
  note t = site_crawl_skips_blank_pages[of "fetched (ustr ''http://a/b'') ''  '' 1" example_lib
      "pages_dir example_lib example_url (ustr ''.crawl'')" 2
      "\<lparr>pages = [], errors = 0, wld = empty_world\<rparr>" example_url example_crawler 3 50
      "ustr ''.crawl''" empty_world example_url
      "const_crawler (Single (fetched example_url ''  '' 0))" "fetched example_url ''  '' 0"]
  have 1: "site_step example_lib (pages_dir example_lib example_url (ustr ''.crawl''))
      (2, fetched (ustr ''http://a/b'') ''  '' 1) \<lparr>pages = [], errors = 0, wld = empty_world\<rparr>
     = (None, \<lparr>pages = [], errors = 0, wld = empty_world\<rparr>)"
    using t b by blast
  have 2: "butlast (files (wld (snd (crawl_site example_lib example_crawler example_url 3 50
        (ustr ''.crawl'') empty_world))))
          = files empty_world @ map (page_file example_lib (pages_dir example_lib example_url (ustr ''.crawl'')))
              (kept_at (site_results example_crawler example_url 3 50))"
     and 3: "errors (snd (crawl_site example_lib example_crawler example_url 3 50
        (ustr ''.crawl'') empty_world)) = length (filter failed (site_results example_crawler example_url 3 50))"
    using t example_accepted example_results_accepted[of 3 50] by blast+
  have 4: "files (snd (crawl_page example_lib (const_crawler (Single (fetched example_url ''  '' 0)))
        example_url (ustr ''.crawl'') empty_world))
       = files empty_world
         @ [(joinpath (the_dir example_lib example_url (ustr ''.crawl''))
               (the_name example_lib example_url @ ustr ''.md''),
             ustr ''# ''
               @ (case title (fetched example_url ''  '' 0) of None \<Rightarrow> example_url
                  | Some t \<Rightarrow> if t = [] then example_url else t)
               @ [10, 10] @ ustr ''URL: '' @ example_url @ [10, 10]
               @ get_markdown (fetched example_url ''  '' 0))]"
    using t example_accepted c example_fields(2)[of example_url "''  ''" 0] by blast
  show ?thesis
    unfolding 2 3 4 example_site_results example_kept_at example_failed example_dir example_names
    using 1 by (simp add: empty_world_def example_fields example_more_fields
        del: get_markdown.simps)
qed

text \<open>
  C6. The claim that every page file and the index file are created inside the output
  directory for every input URL does not hold: the per-domain directory is named after the
  network location of the start URL, of which only the colons are replaced. For the start
  URL \<open>http://../x\<close> and the output directory \<open>.crawl\<close> the index is written to
  \<open>.crawl/../index.md\<close>, which is not inside \<open>.crawl\<close>.
\<close>

theorem index_written_outside_root_counterexample:
  "fst (crawl_site example_lib (const_crawler (Single (unfetched (ustr ''http://../x''))))
          (ustr ''http://../x'') 3 50 (ustr ''.crawl'') empty_world) = None
   \<and> map fst (files (wld (snd (crawl_site example_lib
          (const_crawler (Single (unfetched (ustr ''http://../x''))))
          (ustr ''http://../x'') 3 50 (ustr ''.crawl'') empty_world))))
       = [\<lparr>root = [], parts = [ustr ''.crawl'', ustr ''..'', ustr ''index.md'']\<rparr>]
   \<and> \<not> inside (Path (ustr ''.crawl''))
         \<lparr>root = [], parts = [ustr ''.crawl'', ustr ''..'', ustr ''index.md'']\<rparr>"
proof -
  have acc: "accepted example_lib (ustr ''http://../x'')"
    by (simp add: accepted_def dotdot_url_parsed)
  have rs: "site_results (const_crawler (Single (unfetched (ustr ''http://../x''))))
      (ustr ''http://../x'') 3 50 = [unfetched (ustr ''http://../x'')]"
    by (simp add: site_results_def const_crawler_def results_of_def)
  have all: "\<forall>r\<in>set (site_results (const_crawler (Single (unfetched (ustr ''http://../x''))))
      (ustr ''http://../x'') 3 50). kept r \<longrightarrow> accepted example_lib (url r)"
    unfolding rs by (simp add: example_kept)
  have k: "kept_at [unfetched (ustr ''http://../x'')] = []"
    by (simp add: kept_at_def example_kept enumerate_eq_zip)
  have ip: "index_path example_lib (ustr ''http://../x'') (ustr ''.crawl'')
      = \<lparr>root = [], parts = [ustr ''.crawl'', ustr ''..'', ustr ''index.md'']\<rparr>"
    by (simp add: index_path_def dotdot_dir joinpath_literals)
  have out: "\<not> inside (Path (ustr ''.crawl''))
         \<lparr>root = [], parts = [ustr ''.crawl'', ustr ''..'', ustr ''index.md'']\<rparr>"
    by (simp add: inside_def norm_parts_def norm_step_def path_defs ustr_def cp_def)
  show ?thesis
    unfolding crawl_site_result[OF acc all] rs k ip
    using out by (simp add: empty_world_def)
qed

text \<open>
  C6, as amended. For every URL that \<open>sanitize_filename\<close> returns a name for, the name has
  only word characters, hyphens and dots, hence no path separator, is not empty and has
  at most 100 characters; the file names built from it are a single path component each
  and never \<open>..\<close>. So every file that either crawl writes lies inside the output directory
  whenever the network location of the start URL is not \<open>..\<close>, whatever the path segments
  of the URLs are.
\<close>

theorem sanitized_names_stay_inside:
  "(sanitize_filename lib v = Inr f \<longrightarrow>
      list_all (allowed lib) f \<and> cp CHR ''/'' \<notin> set f \<and> f \<noteq> [] \<and> length f \<le> 100
      \<and> joinpath d (page_filename i f) = \<lparr>root = root d, parts = parts d @ [page_filename i f]\<rparr>
      \<and> page_filename i f \<noteq> ustr ''..''
      \<and> joinpath d (f @ ustr ''.md'') = \<lparr>root = root d, parts = parts d @ [f @ ustr ''.md'']\<rparr>
      \<and> f @ ustr ''.md'' \<noteq> ustr ''..'')
   \<and> (urlparse lib u = Inr pr \<and> netloc pr \<noteq> ustr ''..'' \<longrightarrow>
        (\<forall>ft\<in>set (files (wld (snd (crawl_site lib arun u md mp od w)))).
           fst ft \<in> fst ` set (files w) \<or> inside (Path od) (fst ft))
        \<and> (\<forall>ft\<in>set (files (snd (crawl_page lib arun u od w))).
           fst ft \<in> fst ` set (files w) \<or> inside (Path od) (fst ft)))"
proof (intro conjI impI)
  assume s: "sanitize_filename lib v = Inr f"
  note a = sanitize_alphabet[OF s]
  show "list_all (allowed lib) f" "f \<noteq> []" "length f \<le> 100" by (rule a)+
  show "cp CHR ''/'' \<notin> set f" using allowed_not_slash[OF a(1)] by simp
  show "joinpath d (page_filename i f) = \<lparr>root = root d, parts = parts d @ [page_filename i f]\<rparr>"
    by (rule page_name_single[OF a(1)])
  show "page_filename i f \<noteq> ustr ''..''" by (rule page_filename_safe(2)[OF a(1)])
  show "joinpath d (f @ ustr ''.md'') = \<lparr>root = root d, parts = parts d @ [f @ ustr ''.md'']\<rparr>"
    by (rule md_name_single[OF a(1)])
  show "f @ ustr ''.md'' \<noteq> ustr ''..''" by (rule md_name_safe(2)[OF a(1)])
next
  assume a: "urlparse lib u = Inr pr \<and> netloc pr \<noteq> ustr ''..''"
  show "\<forall>ft\<in>set (files (wld (snd (crawl_site lib arun u md mp od w)))).
           fst ft \<in> fst ` set (files w) \<or> inside (Path od) (fst ft)"
    by (rule crawl_site_files_inside[OF conjunct1[OF a] conjunct2[OF a]])
  show "\<forall>ft\<in>set (files (snd (crawl_page lib arun u od w))).
           fst ft \<in> fst ` set (files w) \<or> inside (Path od) (fst ft)"
    by (rule crawl_page_files_inside[OF conjunct1[OF a] conjunct2[OF a]])
qed

theorem sanitized_names_stay_inside_witness:
  "sanitize_filename example_lib (ustr ''http://a/../../etc/passwd'') = Inr (ustr ''.._.._etc_passwd'')
   \<and> cp CHR ''/'' \<notin> set (ustr ''.._.._etc_passwd'')
   \<and> list_all (\<lambda>ft. inside (Path (ustr ''.crawl'')) (fst ft))
        (files (wld (snd (crawl_site example_lib example_crawler example_url 3 50
           (ustr ''.crawl'') empty_world))))
   \<and> list_all (\<lambda>ft. inside (Path (ustr ''.crawl'')) (fst ft))
        (files (snd (crawl_page example_lib example_crawler example_url
           (ustr ''.crawl'') empty_world)))"
proof -
  note t = sanitized_names_stay_inside[of example_lib "ustr ''http://a/../../etc/passwd''"
      "ustr ''.._.._etc_passwd''" "Path (ustr ''.crawl'')" 0 example_url
      "\<lparr>scheme = ustr ''http'', netloc = ustr ''a'', path = ustr ''/'', params = [],
          query = [], fragment = []\<rparr>" example_crawler 3 50 "ustr ''.crawl''" empty_world]
  have n: "netloc \<lparr>scheme = ustr ''http'', netloc = ustr ''a'', path = ustr ''/'', params = [],
          query = [], fragment = []\<rparr> \<noteq> ustr ''..''"
    by (simp add: ustr_def)
  have e: "fst ` set (files empty_world) = {}" by (simp add: empty_world_def)
  have 1: "cp CHR ''/'' \<notin> set (ustr ''.._.._etc_passwd'')"
    using t traversal_url_sanitized by blast
  have 2: "\<forall>ft\<in>set (files (wld (snd (crawl_site example_lib example_crawler example_url 3 50
           (ustr ''.crawl'') empty_world)))). inside (Path (ustr ''.crawl'')) (fst ft)"
    and 3: "\<forall>ft\<in>set (files (snd (crawl_page example_lib example_crawler example_url
           (ustr ''.crawl'') empty_world))). inside (Path (ustr ''.crawl'')) (fst ft)"
    using t example_url_parsed n unfolding e by blast+
  show ?thesis
    using traversal_url_sanitized 1 2 3 by (simp add: list_all_iff)
qed

end
